theory Spec2Isabelle
  imports Complex_Main "HOL-Library.Sublist"
begin

section \<open>JavaScript values used by the retrieval engine\<close>

text \<open>
  Text is a \<^typ>\<open>string\<close>; the development covers ASCII text, where
  \<^verbatim>\<open>toLowerCase\<close> maps \<^verbatim>\<open>A-Z\<close> to \<^verbatim>\<open>a-z\<close> and leaves every
  other character alone, the class \<^verbatim>\<open>\s\<close> is tab, line feed, vertical tab, form feed,
  carriage return and space, and \<^verbatim>\<open>\w\<close> is \<^verbatim>\<open>[A-Za-z0-9_]\<close>.

  A number is a double, an infinity or NaN.
\<close>

datatype jsnum = Num real | PosInf | NegInf | NaN

subsection \<open>Double-precision arithmetic\<close>

text \<open>
  A finite number is a real of the form \<open>m * 2 ^ e\<close> with \<open>\<bar>m\<bar> \<le> 2 ^ 53\<close>. An
  arithmetic operation gives the exact result rounded to 53 significant bits, to the
  nearest such number and, halfway between two, to the one with the even significand
  (IEEE 754 binary64, round to nearest, ties to even). \<open>expo x\<close> is the exponent of the
  binade of \<open>x\<close>: \<open>2 ^ expo x \<le> x < 2 ^ (expo x + 1)\<close>.

  The exponent is not bounded in the model: the numbers of this program are counts of
  characters, quotients of two counts, sums of up to 26 products of such quotients,
  their square roots, and scores, and none of them leaves the range of the normal
  doubles for a text of fewer than \<open>2 ^ 500\<close> characters. A count of characters is below
  \<open>2 ^ 53\<close> (the length of a string is), so incrementing a count and adding the counts
  up are exact and are written without rounding.
\<close>

function expo :: "real \<Rightarrow> int" where
  "expo x =
     (if x \<le> 0 then 0
      else if 2 \<le> x then expo (x / 2) + 1
      else if x < 1 then expo (2 * x) - 1
      else 0)"
  by pat_completeness auto
termination
proof (relation "measure (\<lambda>x. nat \<bar>\<lfloor>log 2 x\<rfloor>\<bar>)")
  show "wf (measure (\<lambda>x. nat \<bar>\<lfloor>log 2 x\<rfloor>\<bar>))" by simp
next
  fix x :: real assume "\<not> x \<le> 0" "2 \<le> x"
  then have "log 2 (x / 2) = log 2 x - 1" "1 \<le> log 2 x"
    by (simp_all add: log_divide le_log_iff)
  then have "\<lfloor>log 2 (x / 2)\<rfloor> = \<lfloor>log 2 x\<rfloor> - 1" "1 \<le> \<lfloor>log 2 x\<rfloor>"
    by (simp_all add: le_floor_iff)
  then show "(x / 2, x) \<in> measure (\<lambda>x. nat \<bar>\<lfloor>log 2 x\<rfloor>\<bar>)" by simp
next
  fix x :: real assume "\<not> x \<le> 0" "\<not> 2 \<le> x" "x < 1"
  then have "log 2 (2 * x) = log 2 x + 1" and neg: "log 2 x < 0"
    by (simp_all add: log_mult)
  then have eq: "\<lfloor>log 2 (2 * x)\<rfloor> = \<lfloor>log 2 x\<rfloor> + 1"
    by simp
  have "\<lfloor>log 2 x\<rfloor> \<le> - 1"
    using neg by (simp add: floor_le_iff)
  then have "nat \<bar>\<lfloor>log 2 x\<rfloor> + 1\<bar> < nat \<bar>\<lfloor>log 2 x\<rfloor>\<bar>" by linarith
  then show "(2 * x, x) \<in> measure (\<lambda>x. nat \<bar>\<lfloor>log 2 x\<rfloor>\<bar>)"
    by (simp only: in_measure eq)
qed

declare expo.simps [simp del]

text \<open>The integer nearest to \<open>x\<close>, the even one of two that are equally near.\<close>

definition round_even :: "real \<Rightarrow> int" where
  "round_even x =
     (let n = \<lfloor>x\<rfloor>; r = x - of_int n
      in if r < 1 / 2 then n else if 1 / 2 < r then n + 1 else if even n then n else n + 1)"

text \<open>The double nearest to \<open>x\<close>: the significand of \<open>x\<close> scaled to \<open>[2 ^ 52, 2 ^ 53)\<close>
  and rounded to an integer.\<close>

definition rnd :: "real \<Rightarrow> real" where
  "rnd x =
     (if x = 0 then 0
      else (let e = expo \<bar>x\<bar> - 52 in of_int (round_even (x / 2 powi e)) * 2 powi e))"

definition fadd :: "real \<Rightarrow> real \<Rightarrow> real" where
  "fadd x y = rnd (x + y)"

definition fmul :: "real \<Rightarrow> real \<Rightarrow> real" where
  "fmul x y = rnd (x * y)"

definition fdiv :: "real \<Rightarrow> real \<Rightarrow> real" where
  "fdiv x y = rnd (x / y)"

text \<open>\<^verbatim>\<open>Math.sqrt\<close>: the square root, correctly rounded.\<close>

definition fsqrt :: "real \<Rightarrow> real" where
  "fsqrt x = rnd (sqrt x)"

text \<open>\<^verbatim>\<open>x / y\<close> on finite numbers: \<^verbatim>\<open>0 / 0\<close> is NaN and \<^verbatim>\<open>x / 0\<close> is an
  infinity.\<close>

definition js_div :: "real \<Rightarrow> real \<Rightarrow> jsnum" where
  "js_div x y =
     (if y \<noteq> 0 then Num (fdiv x y)
      else if x = 0 then NaN
      else if 0 < x then PosInf else NegInf)"

text \<open>\<^verbatim>\<open>score += boost\<close> for a finite boost.\<close>

fun js_add :: "jsnum \<Rightarrow> real \<Rightarrow> jsnum" where
  "js_add (Num x) y = Num (fadd x y)"
| "js_add PosInf y = PosInf"
| "js_add NegInf y = NegInf"
| "js_add NaN y = NaN"

fun js_sub :: "jsnum \<Rightarrow> jsnum \<Rightarrow> jsnum" where
  "js_sub (Num x) (Num y) = Num (rnd (x - y))"
| "js_sub NaN b = NaN"
| "js_sub a NaN = NaN"
| "js_sub PosInf PosInf = NaN"
| "js_sub NegInf NegInf = NaN"
| "js_sub PosInf b = PosInf"
| "js_sub NegInf b = NegInf"
| "js_sub (Num x) PosInf = NegInf"
| "js_sub (Num x) NegInf = PosInf"

text \<open>\<^verbatim>\<open>v > c\<close> for a finite constant: false when \<open>v\<close> is NaN.\<close>

fun js_gt :: "jsnum \<Rightarrow> real \<Rightarrow> bool" where
  "js_gt (Num x) c = (c < x)"
| "js_gt PosInf c = True"
| "js_gt NegInf c = False"
| "js_gt NaN c = False"

subsection \<open>Array.prototype.sort, slice, join\<close>

text \<open>
  \<^verbatim>\<open>sort(comparefn)\<close> is stable, and a comparator result that is NaN counts as
  \<open>+0\<close>. The model is the stable insertion sort: an element is put in front of the
  first element that the comparator does not put strictly before it. For a consistent
  comparator every stable sort gives this list. For an inconsistent one (NaN for some
  pairs) the language leaves the order to the implementation; the model then gives what
  insertion gives, which is what Node's sort does on the short arrays evaluated below.
\<close>

fun js_positive :: "jsnum \<Rightarrow> bool" where
  "js_positive (Num x) = (0 < x)"
| "js_positive PosInf = True"
| "js_positive NegInf = False"
| "js_positive NaN = False"

fun insort_cmp :: "('a \<Rightarrow> 'a \<Rightarrow> jsnum) \<Rightarrow> 'a \<Rightarrow> 'a list \<Rightarrow> 'a list" where
  "insort_cmp cmp x [] = [x]"
| "insort_cmp cmp x (y # ys) =
     (if js_positive (cmp x y) then y # insort_cmp cmp x ys else x # y # ys)"

definition js_sort :: "('a \<Rightarrow> 'a \<Rightarrow> jsnum) \<Rightarrow> 'a list \<Rightarrow> 'a list" where
  "js_sort cmp xs = foldr (insort_cmp cmp) xs []"

text \<open>\<^verbatim>\<open>xs.slice(0, end)\<close> for an integral \<open>end\<close>: a negative end counts from the back.\<close>

definition js_slice0 :: "int \<Rightarrow> 'a list \<Rightarrow> 'a list" where
  "js_slice0 end xs =
     (let len = int (length xs);
          final = (if end < 0 then max (len + end) 0 else min end len)
      in take (nat final) xs)"

fun join :: "string \<Rightarrow> string list \<Rightarrow> string" where
  "join sep [] = []"
| "join sep [x] = x"
| "join sep (x # y # ys) = x @ sep @ join sep (y # ys)"

text \<open>\<^verbatim>\<open>hay.includes(needle)\<close> on strings: \<open>needle\<close> occurs as a contiguous piece.\<close>

fun starts_with :: "string \<Rightarrow> string \<Rightarrow> bool" where
  "starts_with hay [] = True"
| "starts_with [] (n # ns) = False"
| "starts_with (h # hs) (n # ns) = (h = n \<and> starts_with hs ns)"

fun includes_str :: "string \<Rightarrow> string \<Rightarrow> bool" where
  "includes_str [] needle = (needle = [])"
| "includes_str (h # hs) needle = (starts_with (h # hs) needle \<or> includes_str hs needle)"

definition toLowerCase_char :: "char \<Rightarrow> char" where
  "toLowerCase_char c =
     (let n = (of_char c :: nat) in if 65 \<le> n \<and> n \<le> 90 then char_of (n + 32) else c)"

definition toLowerCase :: "string \<Rightarrow> string" where
  "toLowerCase text = map toLowerCase_char text"

section \<open>Text feature extractor and similarity scorer (rag-utils)\<close>

datatype error = NotInitialized | VectorLengthMismatch

subsection \<open>cosineSimilarity\<close>

definition cosine_loop :: "real list \<Rightarrow> real list \<Rightarrow> real \<times> real \<times> real" where
  "cosine_loop vecA vecB =
     foldl (\<lambda>(dotProduct, normA, normB) i.
              (fadd dotProduct (fmul (vecA ! i) (vecB ! i)),
               fadd normA (fmul (vecA ! i) (vecA ! i)),
               fadd normB (fmul (vecB ! i) (vecB ! i))))
       (0, 0, 0) [0 ..< length vecA]"

definition cosine_value :: "real list \<Rightarrow> real list \<Rightarrow> jsnum" where
  "cosine_value vecA vecB =
     (case cosine_loop vecA vecB of
        (dotProduct, normA, normB) \<Rightarrow> js_div dotProduct (fmul (fsqrt normA) (fsqrt normB)))"

definition cosineSimilarity :: "real list \<Rightarrow> real list \<Rightarrow> error + jsnum" where
  "cosineSimilarity vecA vecB =
     (if length vecA \<noteq> length vecB then Inl VectorLengthMismatch
      else Inr (cosine_value vecA vecB))"

subsection \<open>createSimpleEmbedding\<close>

definition count_letter :: "real list \<Rightarrow> char \<Rightarrow> real list" where
  "count_letter embedding ch =
     (let charCode = int (of_char ch) - 97
      in if 0 \<le> charCode \<and> charCode < 26
         then embedding[nat charCode := embedding ! nat charCode + 1]
         else embedding)"

definition createSimpleEmbedding :: "string \<Rightarrow> real list" where
  "createSimpleEmbedding text =
     (let normalizedText = toLowerCase text;
          embedding = foldl count_letter (replicate 26 0) normalizedText;
          total = foldl (+) 0 embedding
      in if 0 < total then map (\<lambda>x. fdiv x total) embedding else embedding)"

subsection \<open>extractKeywords\<close>

definition stopWords :: "string list" where
  "stopWords =
     [''a'', ''an'', ''the'', ''and'', ''or'', ''but'', ''is'', ''are'', ''was'', ''were'',
      ''be'', ''been'', ''being'', ''in'', ''on'', ''at'', ''to'', ''for'', ''with'', ''by'',
      ''about'', ''against'', ''between'', ''into'', ''through'', ''during'', ''before'',
      ''after'', ''above'', ''below'', ''from'', ''up'', ''down'', ''of'', ''off'', ''over'',
      ''under'']"

definition is_space :: "char \<Rightarrow> bool" where
  "is_space c = (of_char c \<in> {9, 10, 11, 12, 13, 32 :: nat})"

definition is_word :: "char \<Rightarrow> bool" where
  "is_word c =
     (let n = (of_char c :: nat)
      in (48 \<le> n \<and> n \<le> 57) \<or> (65 \<le> n \<and> n \<le> 90) \<or> n = 95 \<or> (97 \<le> n \<and> n \<le> 122))"

text \<open>
  \<^verbatim>\<open>s.split(/\s+/)\<close>: the pieces between the maximal runs of white space, the empty
  pieces at either end included; the empty string splits into one empty piece.
\<close>

function split_ws :: "string \<Rightarrow> string list" where
  "split_ws [] = [[]]"
| "split_ws (c # cs) =
     (if is_space c then [] # split_ws (dropWhile is_space cs)
      else (case split_ws cs of [] \<Rightarrow> [[c]] | w # ws \<Rightarrow> (c # w) # ws))"
  by pat_completeness auto
termination
  by (relation "measure length") (auto simp: length_dropWhile_le less_Suc_eq_le)

text \<open>\<^verbatim>\<open>wordCounts.set(word, (wordCounts.get(word) || 0) + 1)\<close> on a Map, which keeps
  its keys in the order of their first insertion.\<close>

fun count_word :: "(string \<times> nat) list \<Rightarrow> string \<Rightarrow> (string \<times> nat) list" where
  "count_word [] word = [(word, 1)]"
| "count_word ((k, n) # m) word =
     (if k = word then (k, n + 1) # m else (k, n) # count_word m word)"

definition tokenize :: "string \<Rightarrow> string list" where
  "tokenize text =
     filter (\<lambda>word. 2 < length word \<and> word \<notin> set stopWords)
       (split_ws (filter (\<lambda>c. is_word c \<or> is_space c) (toLowerCase text)))"

definition extractKeywords :: "string \<Rightarrow> string list" where
  "extractKeywords text =
     (let wordCounts = foldl count_word [] (tokenize text)
      in map fst
           (js_slice0 10
              (js_sort (\<lambda>a b. Num (real (snd b) - real (snd a))) wordCounts)))"

section \<open>The retrieval engine (RAGService)\<close>

record KnowledgeChunk =
  id' :: string
  title :: string
  content :: string
  keywords' :: "string list"
  relatedChunks :: "string list option"

record EnhancedKnowledgeChunk = KnowledgeChunk +
  embedding :: "real list"
  autoKeywords :: "string list"

text \<open>
  The fields of the class. \<open>chunkMap\<close> holds the chunk objects themselves; the objects
  it holds are the ones in \<open>chunks\<close>, so a write to a chunk of the array is a write to
  the map's entry. Below the map is rebuilt from the array wherever a chunk is written.
\<close>

record RAGService =
  chunks :: "EnhancedKnowledgeChunk list"
  isInitialized :: bool
  systemPrompt :: string
  chunkMap :: "string \<rightharpoonup> EnhancedKnowledgeChunk"

definition newRAGService :: RAGService where
  "newRAGService =
     \<lparr>chunks = [], isInitialized = False, systemPrompt = [], chunkMap = Map.empty\<rparr>"

subsection \<open>initialize\<close>

definition fullText :: "KnowledgeChunk \<Rightarrow> string" where
  "fullText chunk = title chunk @ [CHR 0x0A, CHR 0x0A] @ content chunk"

definition enhance :: "KnowledgeChunk \<Rightarrow> EnhancedKnowledgeChunk" where
  "enhance chunk =
     \<lparr>id' = id' chunk, title = title chunk, content = content chunk,
      keywords' = keywords' chunk, relatedChunks = relatedChunks chunk,
      embedding = createSimpleEmbedding (fullText chunk),
      autoKeywords = extractKeywords (fullText chunk)\<rparr>"

definition keywordOverlap :: "EnhancedKnowledgeChunk \<Rightarrow> EnhancedKnowledgeChunk \<Rightarrow> nat" where
  "keywordOverlap chunk otherChunk =
     length (filter (\<lambda>keyword. keyword \<in> set (keywords' otherChunk)
                               \<or> keyword \<in> set (autoKeywords otherChunk))
               (keywords' chunk @ autoKeywords chunk))"

text \<open>The inner loop of \<^verbatim>\<open>inferChunkRelationships\<close>, for one chunk; the last argument
  is the array \<^verbatim>\<open>relatedChunks\<close> built so far.\<close>

fun infer_related ::
  "EnhancedKnowledgeChunk \<Rightarrow> EnhancedKnowledgeChunk list \<Rightarrow> string list \<Rightarrow> error + string list"
where
  "infer_related chunk [] related = Inr related"
| "infer_related chunk (otherChunk # rest) related =
     (if id' chunk = id' otherChunk then infer_related chunk rest related
      else (case cosineSimilarity (embedding chunk) (embedding otherChunk) of
              Inl e \<Rightarrow> Inl e
            | Inr similarity \<Rightarrow>
                if 2 \<le> keywordOverlap chunk otherChunk \<or> js_gt similarity (rnd 0.6)
                then infer_related chunk rest (related @ [id' otherChunk])
                else infer_related chunk rest related))"

text \<open>One round of the outer loop, on the chunk at index \<open>i\<close> of the array as it is
  then; an error leaves the array as the rounds before it wrote it.\<close>

definition infer_step ::
  "error option \<times> EnhancedKnowledgeChunk list \<Rightarrow> nat
     \<Rightarrow> error option \<times> EnhancedKnowledgeChunk list"
where
  "infer_step st i =
     (case st of
        (Some e, cs) \<Rightarrow> (Some e, cs)
      | (None, cs) \<Rightarrow>
          (let chunk = cs ! i
           in if (case relatedChunks chunk of None \<Rightarrow> False | Some rs \<Rightarrow> 0 < length rs)
              then (None, cs)
              else (case infer_related chunk cs [] of
                      Inl e \<Rightarrow> (Some e, cs)
                    | Inr related \<Rightarrow> (None, cs[i := chunk\<lparr>relatedChunks := Some related\<rparr>]))))"

definition inferChunkRelationships ::
  "EnhancedKnowledgeChunk list \<Rightarrow> error option \<times> EnhancedKnowledgeChunk list"
where
  "inferChunkRelationships cs = foldl infer_step (None, cs) [0 ..< length cs]"

definition set_chunks ::
  "(string \<rightharpoonup> EnhancedKnowledgeChunk) \<Rightarrow> EnhancedKnowledgeChunk list
     \<Rightarrow> (string \<rightharpoonup> EnhancedKnowledgeChunk)"
where
  "set_chunks m cs = foldl (\<lambda>m chunk. m(id' chunk \<mapsto> chunk)) m cs"

text \<open>\<^verbatim>\<open>initialize\<close> returns the error it was rejected with, if any, and the fields
  as it left them.\<close>

definition initialize ::
  "RAGService \<Rightarrow> KnowledgeChunk list \<Rightarrow> string \<Rightarrow> error option \<times> RAGService"
where
  "initialize this knowledgeChunks prompt =
     (if isInitialized this then (None, this)
      else if 0 < length (chunks this) \<and> systemPrompt this = prompt then (None, this)
      else (case inferChunkRelationships (map enhance knowledgeChunks) of
              (err, cs) \<Rightarrow>
                (err,
                 \<lparr>chunks = cs,
                  isInitialized = (case err of None \<Rightarrow> True | Some e \<Rightarrow> isInitialized this),
                  systemPrompt = prompt,
                  chunkMap = set_chunks (chunkMap this) cs\<rparr>)))"

subsection \<open>getRelevantContext\<close>

fun score_chunks ::
  "real list \<Rightarrow> EnhancedKnowledgeChunk list \<Rightarrow> error + (EnhancedKnowledgeChunk \<times> jsnum) list"
where
  "score_chunks queryEmbedding [] = Inr []"
| "score_chunks queryEmbedding (chunk # rest) =
     (case cosineSimilarity queryEmbedding (embedding chunk) of
        Inl e \<Rightarrow> Inl e
      | Inr score \<Rightarrow>
          (case score_chunks queryEmbedding rest of
             Inl e \<Rightarrow> Inl e
           | Inr items \<Rightarrow> Inr ((chunk, score) # items)))"

definition boost_score ::
  "string \<Rightarrow> string list \<Rightarrow> EnhancedKnowledgeChunk \<times> jsnum \<Rightarrow> EnhancedKnowledgeChunk \<times> jsnum"
where
  "boost_score combinedQuery queryKeywords item =
     (let manualKeywordMatches =
            length (filter (\<lambda>keyword. includes_str (toLowerCase combinedQuery) (toLowerCase keyword))
                      (keywords' (fst item)));
          autoKeywordMatches =
            length (filter (\<lambda>keyword. keyword \<in> set queryKeywords) (autoKeywords (fst item)))
      in (fst item,
          js_add (snd item)
            (fadd (fmul (real manualKeywordMatches) (rnd 0.15))
               (fmul (real autoKeywordMatches) (rnd 0.05)))))"

definition chunksToProcess :: "RAGService \<Rightarrow> EnhancedKnowledgeChunk list" where
  "chunksToProcess this =
     (if 50 < length (chunks this) then js_slice0 50 (chunks this) else chunks this)"

text \<open>The array \<^verbatim>\<open>similarities\<close> after the boost and before the sort.\<close>

definition similarities ::
  "RAGService \<Rightarrow> string \<Rightarrow> error + (EnhancedKnowledgeChunk \<times> jsnum) list"
where
  "similarities this combinedQuery =
     (case score_chunks (createSimpleEmbedding combinedQuery) (chunksToProcess this) of
        Inl e \<Rightarrow> Inl e
      | Inr items \<Rightarrow> Inr (map (boost_score combinedQuery (extractKeywords combinedQuery)) items))"

text \<open>A \<^verbatim>\<open>Set\<close> of strings, in insertion order.\<close>

definition set_add :: "string list \<Rightarrow> string \<Rightarrow> string list" where
  "set_add s x = (if x \<in> set s then s else s @ [x])"

definition relatedChunkIds :: "string list \<Rightarrow> EnhancedKnowledgeChunk list \<Rightarrow> string list" where
  "relatedChunkIds topChunkIds topChunks =
     foldl (\<lambda>ids chunk.
              (case relatedChunks chunk of
                 None \<Rightarrow> ids
               | Some rs \<Rightarrow>
                   foldl (\<lambda>ids relatedId.
                            if relatedId \<notin> set topChunkIds then set_add ids relatedId else ids)
                     ids rs))
       [] topChunks"

definition format_chunk :: "string list \<Rightarrow> EnhancedKnowledgeChunk \<Rightarrow> string" where
  "format_chunk topChunkIds chunk =
     (let isRelated = (id' chunk \<notin> set topChunkIds);
          relationNote = (if isRelated then '' (Related Information)'' else [])
      in ''## '' @ title chunk @ relationNote @ [CHR 0x0A, CHR 0x0A] @ content chunk)"

definition separator :: string where
  "separator = [CHR 0x0A, CHR 0x0A] @ ''---'' @ [CHR 0x0A, CHR 0x0A]"

definition topChunks_of ::
  "int \<Rightarrow> (EnhancedKnowledgeChunk \<times> jsnum) list \<Rightarrow> EnhancedKnowledgeChunk list"
where
  "topChunks_of maxChunks items =
     map fst (js_slice0 maxChunks (js_sort (\<lambda>a b. js_sub (snd b) (snd a)) items))"

definition build_context ::
  "RAGService \<Rightarrow> EnhancedKnowledgeChunk list \<Rightarrow> string"
where
  "build_context this topChunks =
     (let topChunkIds = map id' topChunks;
          related = List.map_filter (chunkMap this) (relatedChunkIds topChunkIds topChunks);
          maxRelatedToAdd = min (length related) 2;
          combinedChunks = topChunks @ take maxRelatedToAdd related
      in join separator (map (format_chunk topChunkIds) combinedChunks))"

text \<open>The result, or the error thrown, and the fields after the call.\<close>

definition getRelevantContext ::
  "RAGService \<Rightarrow> string \<Rightarrow> string \<Rightarrow> int \<Rightarrow> (error + string) \<times> RAGService"
where
  "getRelevantContext this query conversationHistory maxChunks =
     (if \<not> isInitialized this then (Inl NotInitialized, this)
      else (let combinedQuery = query @ '' '' @ conversationHistory
            in case similarities this combinedQuery of
                 Inl e \<Rightarrow> (Inl e, this)
               | Inr items \<Rightarrow> (Inr (build_context this (topChunks_of maxChunks items)), this)))"

definition getSystemPrompt :: "RAGService \<Rightarrow> string" where
  "getSystemPrompt this = systemPrompt this"

definition isReady :: "RAGService \<Rightarrow> bool" where
  "isReady this = isInitialized this"

definition getChunkIds :: "RAGService \<Rightarrow> string list" where
  "getChunkIds this = map id' (chunks this)"

section \<open>Notions the properties are stated with\<close>

subsection \<open>Letters of a text\<close>

text \<open>How often the letter number \<open>i\<close> (\<open>0\<close> for \<^verbatim>\<open>a\<close>) occurs in the lowercased
  text, and how many letters \<^verbatim>\<open>a-z\<close> the lowercased text has.\<close>

definition letter_count :: "nat \<Rightarrow> string \<Rightarrow> nat" where
  "letter_count i text = count_list (toLowerCase text) (char_of (97 + i))"

definition total_letters :: "string \<Rightarrow> nat" where
  "total_letters text =
     length (filter (\<lambda>c. 97 \<le> (of_char c :: nat) \<and> (of_char c :: nat) \<le> 122)
               (toLowerCase text))"

subsection \<open>The accumulators of the scorer\<close>

text \<open>The three sums that the loop of \<^verbatim>\<open>cosineSimilarity\<close> accumulates, each on its
  own: the dot product of two vectors and the squared norm of one, in double
  arithmetic from the first entry to the last.\<close>

definition dot_loop :: "real list \<Rightarrow> real list \<Rightarrow> real" where
  "dot_loop vecA vecB = foldl (\<lambda>s (a, b). fadd s (fmul a b)) 0 (zip vecA vecB)"

definition norm_loop :: "real list \<Rightarrow> real" where
  "norm_loop vec = foldl (\<lambda>s a. fadd s (fmul a a)) 0 vec"

subsection \<open>Ranking of keywords\<close>

text \<open>The position at which \<open>x\<close> is first met in \<open>xs\<close>.\<close>

definition first_index :: "'a list \<Rightarrow> 'a \<Rightarrow> nat" where
  "first_index xs x = length (takeWhile (\<lambda>y. y \<noteq> x) xs)"

text \<open>Token \<open>a\<close> ranks before token \<open>b\<close>: it is more frequent, or as frequent and met
  earlier.\<close>

definition ranks_before :: "string list \<Rightarrow> string \<Rightarrow> string \<Rightarrow> bool" where
  "ranks_before toks a b =
     (count_list toks b < count_list toks a
      \<or> (count_list toks a = count_list toks b \<and> first_index toks a < first_index toks b))"

text \<open>The elements of a list without repetition, each at its first occurrence.\<close>

definition firsts :: "'a list \<Rightarrow> 'a list" where
  "firsts xs = rev (remdups (rev xs))"

text \<open>All tokens ranked: the distinct tokens in the order they are first met, sorted
  stably by descending frequency.\<close>

definition keyword_ranking :: "string list \<Rightarrow> string list" where
  "keyword_ranking toks =
     map fst (sort_key (\<lambda>p. - int (snd p)) (map (\<lambda>w. (w, count_list toks w)) (firsts toks)))"

subsection \<open>Inferred relations\<close>

text \<open>A chunk whose related-set is absent or empty gets an inferred one.\<close>

definition needs_inference :: "EnhancedKnowledgeChunk \<Rightarrow> bool" where
  "needs_inference chunk = (relatedChunks chunk = None \<or> relatedChunks chunk = Some [])"

text \<open>The test the code applies to a pair of chunks: another identifier, and a keyword
  overlap of at least 2 or a similarity above 0.6.\<close>

definition related_to :: "EnhancedKnowledgeChunk \<Rightarrow> EnhancedKnowledgeChunk \<Rightarrow> bool" where
  "related_to chunk otherChunk =
     (id' otherChunk \<noteq> id' chunk
      \<and> (2 \<le> keywordOverlap chunk otherChunk
         \<or> js_gt (cosine_value (embedding chunk) (embedding otherChunk)) (rnd 0.6)))"

definition resolve ::
  "EnhancedKnowledgeChunk list \<Rightarrow> EnhancedKnowledgeChunk \<Rightarrow> EnhancedKnowledgeChunk"
where
  "resolve corpus chunk =
     (if needs_inference chunk
      then chunk\<lparr>relatedChunks := Some (map id' (filter (related_to chunk) corpus))\<rparr>
      else chunk)"

text \<open>The overlap in the words of the specification: the size of the intersection of
  the two keyword sets, and the related identifiers it would give.\<close>

definition overlap_as_sets :: "EnhancedKnowledgeChunk \<Rightarrow> EnhancedKnowledgeChunk \<Rightarrow> nat" where
  "overlap_as_sets chunk otherChunk =
     card ((set (keywords' chunk) \<union> set (autoKeywords chunk))
           \<inter> (set (keywords' otherChunk) \<union> set (autoKeywords otherChunk)))"

definition related_as_sets ::
  "EnhancedKnowledgeChunk list \<Rightarrow> EnhancedKnowledgeChunk \<Rightarrow> string list"
where
  "related_as_sets corpus chunk =
     map id'
       (filter (\<lambda>otherChunk.
                  id' otherChunk \<noteq> id' chunk
                  \<and> (2 \<le> overlap_as_sets chunk otherChunk
                     \<or> js_gt (cosine_value (embedding chunk) (embedding otherChunk)) (rnd 0.6)))
          corpus)"

subsection \<open>The engine in its two states\<close>

text \<open>The engine after \<^verbatim>\<open>initialize\<close> on a new service.\<close>

definition ready :: "KnowledgeChunk list \<Rightarrow> string \<Rightarrow> RAGService" where
  "ready knowledgeChunks prompt = snd (initialize newRAGService knowledgeChunks prompt)"

text \<open>The states a service can be in: as constructed, and after any number of calls of
  \<^verbatim>\<open>initialize\<close>. (\<^verbatim>\<open>getRelevantContext\<close> changes no field.)\<close>

inductive reachable :: "RAGService \<Rightarrow> bool" where
  new: "reachable newRAGService"
| init: "reachable this \<Longrightarrow> reachable (snd (initialize this knowledgeChunks prompt))"

subsection \<open>The ranking score\<close>

text \<open>The score the code gives a chunk for a combined query, as one expression: the
  scorer's value for the two signatures, to which the boost is added, 0.15 for each
  curated keyword that is a substring of the query, both lowercased, and 0.05 for each
  auto-keyword among the keywords extracted from the query, each operation in double
  arithmetic.\<close>

definition boosted_score :: "string \<Rightarrow> EnhancedKnowledgeChunk \<Rightarrow> jsnum" where
  "boosted_score combinedQuery chunk =
     js_add (cosine_value (createSimpleEmbedding combinedQuery) (embedding chunk))
       (fadd
          (fmul (real (length (filter (\<lambda>keyword. sublist (toLowerCase keyword) (toLowerCase combinedQuery))
                                 (keywords' chunk))))
             (rnd 0.15))
          (fmul (real (length (filter (\<lambda>keyword. keyword \<in> set (extractKeywords combinedQuery))
                                 (autoKeywords chunk))))
             (rnd 0.05)))"

text \<open>The score in the words of the specification: the similarity of two vectors is
  the cosine of their angle, and 0 when one of them has norm zero; the score adds 0.15
  per curated keyword matched and 0.05 per auto-keyword matched.\<close>

definition specified_similarity :: "real list \<Rightarrow> real list \<Rightarrow> real" where
  "specified_similarity vecA vecB =
     (let normA = sqrt (sum_list (map (\<lambda>x. x * x) vecA));
          normB = sqrt (sum_list (map (\<lambda>x. x * x) vecB))
      in if normA = 0 \<or> normB = 0 then 0
         else sum_list (map2 (*) vecA vecB) / (normA * normB))"

definition specified_score :: "string \<Rightarrow> EnhancedKnowledgeChunk \<Rightarrow> real" where
  "specified_score combinedQuery chunk =
     specified_similarity (createSimpleEmbedding combinedQuery) (embedding chunk)
     + 0.15 * real (length (filter (\<lambda>keyword. sublist (toLowerCase keyword) (toLowerCase combinedQuery))
                              (keywords' chunk)))
     + 0.05 * real (length (filter (\<lambda>keyword. keyword \<in> set (extractKeywords combinedQuery))
                              (autoKeywords chunk)))"

subsection \<open>The sum of a signature\<close>

text \<open>The entries of a vector added one after the other in double arithmetic, as
  \<^verbatim>\<open>reduce((a, b) => a + b, 0)\<close> adds them.\<close>

definition double_sum :: "real list \<Rightarrow> real" where
  "double_sum xs = foldl fadd 0 xs"

subsection \<open>The ranked result\<close>

text \<open>The value of a finite number, and the stable sort of candidates by descending
  score (the library's \<open>sort_key\<close> is the stable insertion sort).\<close>

definition num_value :: "jsnum \<Rightarrow> real" where
  "num_value v = (case v of Num x \<Rightarrow> x | _ \<Rightarrow> 0)"

definition rank_by_score :: "('a \<Rightarrow> jsnum) \<Rightarrow> 'a list \<Rightarrow> 'a list" where
  "rank_by_score score xs = sort_key (\<lambda>x. - num_value (score x)) xs"

text \<open>The section of a primary result and of a secondary one.\<close>

definition primary_section :: "EnhancedKnowledgeChunk \<Rightarrow> string" where
  "primary_section chunk = ''## '' @ title chunk @ [CHR 0x0A, CHR 0x0A] @ content chunk"

definition related_section :: "EnhancedKnowledgeChunk \<Rightarrow> string" where
  "related_section chunk =
     ''## '' @ title chunk @ '' (Related Information)'' @ [CHR 0x0A, CHR 0x0A] @ content chunk"

text \<open>The secondary results for given primary ones: the related identifiers of the
  primary results in the order met, without those of primary results and without
  repetition, looked up in the map, the unknown ones dropped, and the first two kept.\<close>

definition related_ids_of :: "EnhancedKnowledgeChunk \<Rightarrow> string list" where
  "related_ids_of chunk = (case relatedChunks chunk of None \<Rightarrow> [] | Some rs \<Rightarrow> rs)"

definition secondary_results ::
  "RAGService \<Rightarrow> EnhancedKnowledgeChunk list \<Rightarrow> EnhancedKnowledgeChunk list" where
  "secondary_results this primaries =
     take 2 (List.map_filter (chunkMap this)
       (firsts (filter (\<lambda>relatedId. relatedId \<notin> set (map id' primaries))
                  (concat (map related_ids_of primaries)))))"

subsection \<open>Example chunks\<close>

text \<open>Two chunks that share one keyword, the first naming it both as a curated keyword
  and in its title.\<close>

definition billing_chunk :: KnowledgeChunk where
  "billing_chunk =
     \<lparr>id' = ''billing'', title = ''Billing'', content = [], keywords' = [''billing''],
      relatedChunks = None\<rparr>"

definition faq_chunk :: KnowledgeChunk where
  "faq_chunk =
     \<lparr>id' = ''faq'', title = ''FAQ'', content = [], keywords' = [''billing''],
      relatedChunks = None\<rparr>"

text \<open>Chunks for two corpora; the title and content of \<open>year_chunk\<close> have no
  letter.\<close>

definition maps_chunk :: KnowledgeChunk where
  "maps_chunk =
     \<lparr>id' = ''maps'', title = ''Maps'', content = [], keywords' = [], relatedChunks = None\<rparr>"

definition year_chunk :: KnowledgeChunk where
  "year_chunk =
     \<lparr>id' = ''year'', title = ''2024'', content = [], keywords' = [], relatedChunks = None\<rparr>"

definition refund_chunk :: KnowledgeChunk where
  "refund_chunk =
     \<lparr>id' = ''refund'', title = ''Refund'', content = [], keywords' = [], relatedChunks = None\<rparr>"

definition letterless_corpus :: "KnowledgeChunk list" where
  "letterless_corpus = [year_chunk, refund_chunk]"

definition example_corpus :: "KnowledgeChunk list" where
  "example_corpus = [maps_chunk, year_chunk, refund_chunk]"

text \<open>A chunk without a letter in its title and content that names a curated
  keyword.\<close>

definition dated_chunk :: KnowledgeChunk where
  "dated_chunk =
     \<lparr>id' = ''year'', title = ''2024'', content = [], keywords' = [''refund''],
      relatedChunks = None\<rparr>"

text \<open>Two chunks without a common keyword; the cosine of the angle between their
  signatures is \<open>3 / 5\<close>.\<close>

definition short_chunk :: KnowledgeChunk where
  "short_chunk =
     \<lparr>id' = ''p'', title = ''a'', content = [], keywords' = [], relatedChunks = None\<rparr>"

definition long_chunk :: KnowledgeChunk where
  "long_chunk =
     \<lparr>id' = ''q'', title = ''aaabbbb'', content = [], keywords' = [], relatedChunks = None\<rparr>"

section \<open>Rounding to a double\<close>

lemma powi_two_Suc: "(2::real) powi (k + 1) = 2 * 2 powi k"
  by (simp add: power_int_add)

lemma powi_two_pos [simp]: "0 < (2::real) powi k"
  by simp

lemma expo_bounds: "0 < x \<Longrightarrow> 2 powi expo x \<le> x \<and> x < 2 powi (expo x + 1)"
proof (induction x rule: expo.induct)
  case (1 x)
  show ?case
  proof (cases "2 \<le> x")
    case True
    with "1.prems" have e: "expo x = expo (x / 2) + 1"
      by (subst expo.simps) simp
    have "2 powi expo (x / 2) \<le> x / 2 \<and> x / 2 < 2 powi (expo (x / 2) + 1)"
      using "1.prems" True by (intro "1.IH"(1)) simp_all
    then have "2 * 2 powi expo (x / 2) \<le> x \<and> x < 2 * 2 powi (expo (x / 2) + 1)"
      by simp
    then show ?thesis
      unfolding e powi_two_Suc [of "expo (x / 2) + 1"] powi_two_Suc [of "expo (x / 2)"] .
  next
    case False
    show ?thesis
    proof (cases "x < 1")
      case True
      with "1.prems" False have e: "expo x = expo (2 * x) - 1"
        by (subst expo.simps) simp
      have "2 powi expo (2 * x) \<le> 2 * x \<and> 2 * x < 2 powi (expo (2 * x) + 1)"
        using "1.prems" False True by (intro "1.IH"(2)) simp_all
      moreover have "(2::real) powi expo (2 * x) = 2 * 2 powi (expo (2 * x) - 1)"
        using powi_two_Suc [of "expo (2 * x) - 1"] by simp
      moreover have "(2::real) powi (expo (2 * x) + 1) = 2 * 2 powi expo (2 * x)"
        by (rule powi_two_Suc)
      ultimately have "2 powi (expo (2 * x) - 1) \<le> x \<and> x < 2 powi expo (2 * x)"
        by simp
      then show ?thesis
        unfolding e by simp
    next
      case False
      with \<open>\<not> 2 \<le> x\<close> "1.prems" have "expo x = 0"
        by (subst expo.simps) simp
      with False \<open>\<not> 2 \<le> x\<close> show ?thesis by simp
    qed
  qed
qed

lemma expo_eqI:
  assumes "2 powi k \<le> x" and "x < 2 powi (k + 1)"
  shows "expo x = k"
proof -
  have "0 < (2::real) powi k" by simp
  with assms(1) have pos: "0 < x" by linarith
  from expo_bounds [OF pos] have b: "2 powi expo x \<le> x" "x < 2 powi (expo x + 1)"
    by simp_all
  have "\<not> expo x + 1 \<le> k"
  proof
    assume "expo x + 1 \<le> k"
    then have "(2::real) powi (expo x + 1) \<le> 2 powi k"
      by (rule power_int_increasing) simp
    with assms(1) b(2) show False by linarith
  qed
  moreover have "\<not> k + 1 \<le> expo x"
  proof
    assume "k + 1 \<le> expo x"
    then have "(2::real) powi (k + 1) \<le> 2 powi expo x"
      by (rule power_int_increasing) simp
    with assms(2) b(1) show False by linarith
  qed
  ultimately show ?thesis by linarith
qed

lemma round_even_cases: "round_even z = \<lfloor>z\<rfloor> \<or> round_even z = \<lfloor>z\<rfloor> + 1"
  by (simp add: round_even_def Let_def)

lemma round_even_error: "\<bar>of_int (round_even z) - z\<bar> \<le> 1 / 2"
  unfolding round_even_def Let_def by (auto; linarith)

lemma round_even_ge: "of_int n \<le> z \<Longrightarrow> n \<le> round_even z"
  using round_even_cases [of z] by (auto simp: le_floor_iff; linarith)

lemma round_even_le: "z \<le> of_int n \<Longrightarrow> round_even z \<le> n"
proof (cases "z = of_int n")
  case True
  then show ?thesis by (simp add: round_even_def)
next
  case False
  assume "z \<le> of_int n"
  with False have "z < of_int n" by simp
  then have "\<lfloor>z\<rfloor> < n" by (simp add: floor_less_iff)
  then show ?thesis using round_even_cases [of z] by linarith
qed

lemma round_even_eqI:
  assumes "\<bar>z - of_int m\<bar> < 1 / 2"
  shows "round_even z = m"
proof (cases "of_int m \<le> z")
  case True
  moreover from assms have "z < of_int m + 1" by linarith
  ultimately have "\<lfloor>z\<rfloor> = m" by (rule floor_unique)
  moreover have "z - of_int m < 1 / 2" using assms by linarith
  ultimately show ?thesis by (simp add: round_even_def Let_def)
next
  case False
  from assms have "of_int m - 1 \<le> z" by linarith
  then have "of_int (m - 1) \<le> z" by simp
  moreover from False have "z < of_int (m - 1) + 1" by simp
  ultimately have f: "\<lfloor>z\<rfloor> = m - 1" by (rule floor_unique)
  have "1 / 2 < z - (of_int m - 1)" using assms by linarith
  then have "1 / 2 < z - of_int (m - 1)" by simp
  then have "\<not> z - of_int (m - 1) < 1 / 2" by linarith
  with f \<open>1 / 2 < z - of_int (m - 1)\<close> show ?thesis
    by (simp only: round_even_def Let_def if_True if_False)
qed

lemma rnd_0 [simp]: "rnd 0 = 0"
  by (simp add: rnd_def)

text \<open>The significand of a positive number, scaled.\<close>

lemma scaled_bounds:
  assumes "0 < x"
  shows "2 ^ 52 \<le> x / 2 powi (expo x - 52)" "x / 2 powi (expo x - 52) < 2 ^ 53"
proof -
  from expo_bounds [OF assms] have b: "2 powi expo x \<le> x" "x < 2 powi (expo x + 1)"
    by simp_all
  have "(2::real) powi expo x = 2 powi ((expo x - 52) + 52)" by simp
  also have "\<dots> = 2 powi (expo x - 52) * 2 powi 52" by (rule power_int_add) simp
  finally have e1: "(2::real) powi expo x = 2 powi (expo x - 52) * 2 ^ 52" by simp
  have "expo x + 1 = (expo x - 52) + 53" by simp
  then have "(2::real) powi (expo x + 1) = 2 powi ((expo x - 52) + 53)" by (rule arg_cong)
  also have "\<dots> = 2 powi (expo x - 52) * 2 powi 53" by (rule power_int_add) simp
  finally have e2: "(2::real) powi (expo x + 1) = 2 powi (expo x - 52) * 2 ^ 53" by simp
  have p: "0 < (2::real) powi (expo x - 52)" by simp
  from b(1) have "2 ^ 52 * 2 powi (expo x - 52) \<le> x" unfolding e1 by (simp only: mult.commute)
  then show "2 ^ 52 \<le> x / 2 powi (expo x - 52)"
    using p by (simp only: pos_le_divide_eq)
  from b(2) have "x < 2 ^ 53 * 2 powi (expo x - 52)" unfolding e2 by (simp only: mult.commute)
  then show "x / 2 powi (expo x - 52) < 2 ^ 53"
    using p by (simp only: pos_divide_less_eq)
qed

lemma rnd_pos: "0 < x \<Longrightarrow> 0 < rnd x"
proof -
  assume x: "0 < x"
  have "(2 ^ 52 :: int) \<le> round_even (x / 2 powi (expo x - 52))"
    using scaled_bounds(1) [OF x] by (intro round_even_ge) simp
  moreover have "(0::int) < 2 ^ 52" by simp
  ultimately have "0 < round_even (x / 2 powi (expo x - 52))" by linarith
  with x show ?thesis by (simp add: rnd_def Let_def)
qed

lemma rnd_neg: "x < 0 \<Longrightarrow> rnd x < 0"
proof -
  assume x: "x < 0"
  then have p: "0 < - x" by simp
  have "x / 2 powi (expo (- x) - 52) \<le> - (2 ^ 52)"
    using scaled_bounds(1) [OF p] by simp
  then have "round_even (x / 2 powi (expo (- x) - 52)) \<le> - (2 ^ 52)"
    by (intro round_even_le) simp
  moreover have "(0::int) < 2 ^ 52" by simp
  ultimately have "round_even (x / 2 powi (expo (- x) - 52)) < 0" by linarith
  with x show ?thesis by (simp add: rnd_def Let_def mult_neg_pos)
qed

lemma rnd_nonneg: "0 \<le> x \<Longrightarrow> 0 \<le> rnd x"
  using rnd_pos [of x] by (cases "x = 0") auto

lemma rnd_eq_0_iff [simp]: "rnd x = 0 \<longleftrightarrow> x = 0"
proof
  assume "rnd x = 0"
  then show "x = 0" using rnd_pos [of x] rnd_neg [of x] by (cases "x < 0"; cases "0 < x") auto
qed simp

lemma rnd_pos_iff [simp]: "0 < rnd x \<longleftrightarrow> 0 < x"
proof
  assume "0 < rnd x"
  then show "0 < x" using rnd_neg [of x] by (cases "x = 0"; cases "x < 0") auto
qed (rule rnd_pos)

lemma rnd_neg_iff [simp]: "rnd x < 0 \<longleftrightarrow> x < 0"
proof
  assume "rnd x < 0"
  then show "x < 0" using rnd_nonneg [of x] by (cases "x < 0") auto
qed (rule rnd_neg)

text \<open>The relative error of rounding is at most \<open>2 ^ - 53\<close>.\<close>

lemma rnd_error_pos:
  assumes "0 < x"
  shows "\<bar>rnd x - x\<bar> \<le> x / 2 ^ 53"
proof -
  let ?e = "expo x - 52"
  let ?z = "x / 2 powi ?e"
  have r: "rnd x = of_int (round_even ?z) * 2 powi ?e"
    using assms by (simp add: rnd_def Let_def)
  have "rnd x - x = (of_int (round_even ?z) - ?z) * 2 powi ?e"
    unfolding r by (simp add: left_diff_distrib)
  then have "\<bar>rnd x - x\<bar> = \<bar>of_int (round_even ?z) - ?z\<bar> * 2 powi ?e"
    by (simp only: abs_mult) simp
  also have "\<dots> \<le> 1 / 2 * 2 powi ?e"
    by (intro mult_right_mono round_even_error) simp
  also have "\<dots> \<le> x / 2 ^ 53"
  proof -
    have "2 ^ 52 * 2 powi ?e \<le> x"
      using scaled_bounds(1) [OF assms] by (simp only: pos_le_divide_eq powi_two_pos)
    then show ?thesis by simp
  qed
  finally show ?thesis .
qed

lemma rnd_error: "0 \<le> x \<Longrightarrow> \<bar>rnd x - x\<bar> \<le> x / 2 ^ 53"
  using rnd_error_pos [of x] by (cases "x = 0") auto

lemma rnd_upper:
  assumes "0 \<le> x"
  shows "rnd x \<le> (1 + 1 / 2 ^ 53) * x"
proof -
  have "rnd x - x \<le> x / 2 ^ 53" using rnd_error [OF assms] by linarith
  moreover have "(1 + 1 / 2 ^ 53) * x = x + x / 2 ^ 53" by (simp only: distrib_right) simp
  ultimately show ?thesis by linarith
qed

lemma rnd_lower:
  assumes "0 \<le> x"
  shows "(1 - 1 / 2 ^ 53) * x \<le> rnd x"
proof -
  have "x - rnd x \<le> x / 2 ^ 53" using rnd_error [OF assms] by linarith
  moreover have "(1 - 1 / 2 ^ 53) * x = x - x / 2 ^ 53" by (simp only: left_diff_distrib) simp
  ultimately show ?thesis by linarith
qed

text \<open>How a rounding is evaluated: a number within half a unit of the last place of
  \<open>m * 2 ^ e\<close> rounds to it.\<close>

lemma rnd_eqI:
  assumes m: "2 ^ 52 < m" "m < 2 ^ 53"
    and lo: "(of_int m - 1 / 2) * 2 powi e < y" and hi: "y < (of_int m + 1 / 2) * 2 powi e"
  shows "rnd y = of_int m * 2 powi e"
proof -
  have "(of_int (2 ^ 52) :: real) < of_int m" "(of_int m :: real) < of_int (2 ^ 53)"
    using m by (simp_all only: of_int_less_iff)
  then have m': "2 ^ 52 \<le> (of_int m :: real) - 1 / 2" "(of_int m :: real) + 1 / 2 \<le> 2 ^ 53"
    by simp_all
  have p: "0 < (2::real) powi e" by simp
  have "(2::real) powi (e + 52) = 2 powi e * 2 powi 52" by (rule power_int_add) simp
  also have "\<dots> = 2 ^ 52 * 2 powi e" by simp
  also have "\<dots> \<le> (of_int m - 1 / 2) * 2 powi e"
    using m'(1) by (intro mult_right_mono) simp_all
  also have "\<dots> < y" by (rule lo)
  finally have l: "2 powi (e + 52) \<le> y" by simp
  have "e + 52 + 1 = e + 53" by simp
  then have "(2::real) powi (e + 52 + 1) = 2 powi (e + 53)" by (rule arg_cong)
  also have "\<dots> = 2 powi e * 2 powi 53" by (rule power_int_add) simp
  also have "\<dots> = 2 ^ 53 * 2 powi e" by simp
  finally have e53: "(2::real) powi (e + 52 + 1) = 2 ^ 53 * 2 powi e" .
  have "y < (of_int m + 1 / 2) * 2 powi e" by (rule hi)
  also have "\<dots> \<le> 2 ^ 53 * 2 powi e"
    using m'(2) by (intro mult_right_mono) simp_all
  finally have h: "y < 2 powi (e + 52 + 1)" by (simp only: e53)
  have ex: "expo y = e + 52" using l h by (rule expo_eqI)
  have "0 < (2::real) powi (e + 52)" by simp
  with l have y: "0 < y" by linarith
  have "\<bar>y / 2 powi e - of_int m\<bar> < 1 / 2"
  proof -
    have "of_int m - 1 / 2 < y / 2 powi e" using lo p by (simp only: pos_less_divide_eq)
    moreover have "y / 2 powi e < of_int m + 1 / 2" using hi p by (simp only: pos_divide_less_eq)
    ultimately show ?thesis by linarith
  qed
  then have "round_even (y / 2 powi e) = m" by (rule round_even_eqI)
  with y ex show ?thesis by (simp add: rnd_def Let_def)
qed

section \<open>The signature of a text\<close>

lemma length_count_letter [simp]: "length (count_letter e c) = length e"
  by (simp add: count_letter_def Let_def)

lemma length_foldl_count_letter [simp]: "length (foldl count_letter e cs) = length e"
  by (induction cs arbitrary: e) simp_all

lemma letter_code_iff:
  assumes "i < 26"
  shows "(c = char_of (97 + i)) \<longleftrightarrow> ((of_char c :: nat) = 97 + i)"
proof
  assume "c = char_of (97 + i)"
  then have "(of_char c :: nat) = (97 + i) mod 256" by simp
  with assms show "(of_char c :: nat) = 97 + i" by simp
next
  assume "(of_char c :: nat) = 97 + i"
  then have "char_of (of_char c :: nat) = (char_of (97 + i) :: char)" by simp
  then show "c = char_of (97 + i)" by simp
qed

lemma nth_count_letter:
  assumes "length e = 26" and "i < 26"
  shows "count_letter e c ! i = e ! i + (if c = char_of (97 + i) then 1 else 0)"
proof (cases "97 \<le> (of_char c :: nat) \<and> (of_char c :: nat) < 123")
  case True
  then have cc: "0 \<le> int (of_char c) - 97 \<and> int (of_char c) - 97 < 26" by linarith
  have n: "nat (int (of_char c) - 97) = of_char c - 97" by linarith
  have lt: "(of_char c :: nat) - 97 < length e" using True assms(1) by linarith
  have "((of_char c :: nat) - 97 = i) \<longleftrightarrow> (c = char_of (97 + i))"
    using True letter_code_iff [OF assms(2), of c] by auto
  then have "e[of_char c - 97 := e ! (of_char c - 97) + 1] ! i
             = e ! i + (if c = char_of (97 + i) then 1 else 0)"
    using lt by (auto simp: nth_list_update)
  then show ?thesis
    by (simp only: count_letter_def Let_def cc if_True n simp_thms)
next
  case False
  then have cc: "\<not> (0 \<le> int (of_char c) - 97 \<and> int (of_char c) - 97 < 26)" by linarith
  have "c \<noteq> char_of (97 + i)"
    using False letter_code_iff [OF assms(2), of c] assms(2) by auto
  then show ?thesis
    by (simp only: count_letter_def Let_def cc if_False)
qed

lemma nth_foldl_count_letter:
  "length e = 26 \<Longrightarrow> i < 26 \<Longrightarrow>
   foldl count_letter e cs ! i = e ! i + real (count_list cs (char_of (97 + i)))"
proof (induction cs arbitrary: e)
  case Nil
  then show ?case by simp
next
  case (Cons c cs)
  have "foldl count_letter (count_letter e c) cs ! i
        = count_letter e c ! i + real (count_list cs (char_of (97 + i)))"
    using Cons.prems by (intro Cons.IH) simp_all
  then show ?case
    using Cons.prems by (simp add: nth_count_letter)
qed

lemma foldl_plus_real: "foldl (+) a xs = a + sum_list (xs :: real list)"
  by (induction xs arbitrary: a) (simp_all add: add.assoc)

lemma sum_letter_indicator:
  "(\<Sum>i::nat<26. if c = char_of (97 + i) then 1 else 0 :: nat)
   = (if 97 \<le> (of_char c :: nat) \<and> (of_char c :: nat) \<le> 122 then 1 else 0)"
proof -
  have "(\<Sum>i::nat<26. if c = char_of (97 + i) then 1 else 0 :: nat)
        = (\<Sum>i::nat\<in>{..<26}. if i = of_char c - 97 then (if 97 \<le> (of_char c :: nat) then 1 else 0) else 0)"
    by (rule sum.cong) (auto simp: letter_code_iff)
  also have "\<dots> = (if 97 \<le> (of_char c :: nat) \<and> (of_char c :: nat) \<le> 122 then 1 else 0)"
    by (simp only: sum.delta finite_lessThan) auto
  finally show ?thesis .
qed

lemma sum_letter_counts:
  "(\<Sum>i::nat<26. count_list cs (char_of (97 + i)))
   = length (filter (\<lambda>c. 97 \<le> (of_char c :: nat) \<and> (of_char c :: nat) \<le> 122) cs)"
proof (induction cs)
  case Nil
  then show ?case by simp
next
  case (Cons c cs)
  have step: "count_list (c # cs) x = count_list cs x + (if c = x then 1 else 0)" for x
    by simp
  have "(\<Sum>i::nat<26. count_list (c # cs) (char_of (97 + i)))
        = (\<Sum>i::nat<26. count_list cs (char_of (97 + i)))
          + (\<Sum>i::nat<26. if c = char_of (97 + i) then 1 else 0 :: nat)"
    by (simp only: step sum.distrib)
  then show ?case
    by (simp only: Cons.IH sum_letter_indicator) simp
qed

lemma raw_embedding:
  "foldl count_letter (replicate 26 0) (toLowerCase text)
   = map (\<lambda>i. real (letter_count i text)) [0 ..< 26]"
  by (rule nth_equalityI) (simp_all add: nth_foldl_count_letter letter_count_def)

lemma sum_list_map_upt: "sum_list (map f [0 ..< n]) = (\<Sum>i<n. f i :: real)"
  by (induction n) simp_all

lemma sum_raw_embedding:
  "sum_list (map (\<lambda>i. real (letter_count i text)) [0 ..< 26]) = real (total_letters text)"
proof -
  have "(\<Sum>i<26. real (letter_count i text)) = real (\<Sum>i<26. letter_count i text)"
    by simp
  also have "\<dots> = real (total_letters text)"
    by (simp only: letter_count_def total_letters_def sum_letter_counts)
  finally show ?thesis by (simp only: sum_list_map_upt)
qed

lemma sum_list_divide: "sum_list (map (\<lambda>x. x / c) xs) = sum_list xs / (c :: real)"
  by (induction xs) (simp_all add: add_divide_distrib)

text \<open>The entries are the rounded quotients of the counts by the number of letters.\<close>

lemma createSimpleEmbedding_eq:
  "createSimpleEmbedding text =
     map (\<lambda>i. if total_letters text = 0 then 0
               else rnd (real (letter_count i text) / real (total_letters text))) [0 ..< 26]"
proof (cases "total_letters text = 0")
  case True
  have z: "letter_count i text = 0" if "i < 26" for i
  proof -
    have "(\<Sum>i<26. letter_count i text) = 0"
      using True by (simp only: letter_count_def total_letters_def sum_letter_counts)
    with that show ?thesis by simp
  qed
  have "map (\<lambda>i. real (letter_count i text)) [0 ..< 26] = map (\<lambda>i. 0) [0 ..< 26]"
    by (rule map_cong) (simp_all add: z)
  with True show ?thesis
    by (simp add: createSimpleEmbedding_def Let_def raw_embedding foldl_plus_real
        sum_raw_embedding)
next
  case False
  then show ?thesis
    by (simp add: createSimpleEmbedding_def Let_def raw_embedding foldl_plus_real
        sum_raw_embedding o_def fdiv_def)
qed

lemma length_createSimpleEmbedding [simp]: "length (createSimpleEmbedding text) = 26"
  by (simp add: createSimpleEmbedding_eq)

lemma createSimpleEmbedding_no_letters:
  "total_letters text = 0 \<Longrightarrow> createSimpleEmbedding text = replicate 26 0"
  by (simp add: createSimpleEmbedding_eq map_replicate_const)

lemma createSimpleEmbedding_nonneg: "x \<in> set (createSimpleEmbedding text) \<Longrightarrow> 0 \<le> x"
  by (auto simp: createSimpleEmbedding_eq intro!: rnd_nonneg)

text \<open>The sum of rounded numbers against the sum of the numbers.\<close>

lemma sum_list_rnd_error:
  assumes "\<forall>x\<in>set xs. 0 \<le> x"
  shows "\<bar>sum_list (map rnd xs) - sum_list xs\<bar> \<le> sum_list xs / 2 ^ 53"
  using assms
proof (induction xs)
  case Nil
  then show ?case by simp
next
  case (Cons x xs)
  then have ih: "\<bar>sum_list (map rnd xs) - sum_list xs\<bar> \<le> sum_list xs / 2 ^ 53" by simp
  have "\<bar>rnd x - x\<bar> \<le> x / 2 ^ 53" using Cons.prems by (intro rnd_error) simp
  moreover have "(x + sum_list xs) / 2 ^ 53 = x / 2 ^ 53 + sum_list xs / 2 ^ 53"
    by (rule add_divide_distrib)
  ultimately have "\<bar>(rnd x + sum_list (map rnd xs)) - (x + sum_list xs)\<bar>
                   \<le> (x + sum_list xs) / 2 ^ 53"
    using ih by linarith
  then show ?case by simp
qed

lemma sum_list_createSimpleEmbedding:
  assumes "total_letters text \<noteq> 0"
  shows "\<bar>sum_list (createSimpleEmbedding text) - 1\<bar> \<le> 1 / 2 ^ 53"
proof -
  let ?q = "map (\<lambda>x. x / real (total_letters text))
              (map (\<lambda>i. real (letter_count i text)) [0 ..< 26])"
  have e: "createSimpleEmbedding text = map rnd ?q"
    using assms by (simp add: createSimpleEmbedding_eq o_def)
  have one: "sum_list ?q = 1"
    using assms by (simp only: sum_list_divide sum_raw_embedding) simp
  have "\<forall>x\<in>set ?q. 0 \<le> x" by auto
  then have "\<bar>sum_list (map rnd ?q) - sum_list ?q\<bar> \<le> sum_list ?q / 2 ^ 53"
    by (rule sum_list_rnd_error)
  then show ?thesis
    by (simp only: e one)
qed

text \<open>The sum in double arithmetic of non-negative numbers: each addition has a
  relative error of at most \<open>2 ^ - 53\<close>.\<close>

lemma foldl_fadd_bounds:
  assumes "0 \<le> a" and "\<forall>x\<in>set xs. 0 \<le> x"
  shows "(1 - 1 / 2 ^ 53) ^ length xs * (a + sum_list xs) \<le> foldl fadd a xs
         \<and> foldl fadd a xs \<le> (1 + 1 / 2 ^ 53) ^ length xs * (a + sum_list xs)"
  using assms
proof (induction xs arbitrary: a)
  case Nil
  then show ?case by simp
next
  case (Cons x xs)
  let ?u = "1 / 2 ^ 53 :: real"
  let ?n = "length xs"
  let ?S = "sum_list xs"
  have x: "0 \<le> x" and S: "0 \<le> ?S" using Cons.prems(2) by (simp_all add: sum_list_nonneg)
  have ax: "0 \<le> a + x" using Cons.prems(1) x by simp
  have r: "0 \<le> rnd (a + x)" using ax by (rule rnd_nonneg)
  have ih: "(1 - ?u) ^ ?n * (rnd (a + x) + ?S) \<le> foldl fadd (rnd (a + x)) xs
            \<and> foldl fadd (rnd (a + x)) xs \<le> (1 + ?u) ^ ?n * (rnd (a + x) + ?S)"
    using Cons.prems(2) r by (intro Cons.IH) simp_all
  have up: "rnd (a + x) + ?S \<le> (1 + ?u) * (a + x + ?S)"
  proof -
    have "rnd (a + x) \<le> (1 + ?u) * (a + x)" using ax by (rule rnd_upper)
    moreover have "?S \<le> (1 + ?u) * ?S" using S by (simp add: mult_le_cancel_right1)
    moreover have "(1 + ?u) * (a + x + ?S) = (1 + ?u) * (a + x) + (1 + ?u) * ?S"
      by (rule distrib_left)
    ultimately show ?thesis by linarith
  qed
  have lo: "(1 - ?u) * (a + x + ?S) \<le> rnd (a + x) + ?S"
  proof -
    have "(1 - ?u) * (a + x) \<le> rnd (a + x)" using ax by (rule rnd_lower)
    moreover have "(1 - ?u) * ?S \<le> ?S" using S by (simp add: mult_le_cancel_right1)
    moreover have "(1 - ?u) * (a + x + ?S) = (1 - ?u) * (a + x) + (1 - ?u) * ?S"
      by (rule distrib_left)
    ultimately show ?thesis by linarith
  qed
  have "(1 - ?u) ^ Suc ?n * (a + x + ?S) = (1 - ?u) ^ ?n * ((1 - ?u) * (a + x + ?S))"
    by (simp add: mult.assoc power_commutes)
  also have "\<dots> \<le> (1 - ?u) ^ ?n * (rnd (a + x) + ?S)"
    using lo by (intro mult_left_mono) simp_all
  finally have lower: "(1 - ?u) ^ Suc ?n * (a + x + ?S) \<le> foldl fadd (rnd (a + x)) xs"
    using ih by linarith
  have "(1 + ?u) ^ ?n * (rnd (a + x) + ?S) \<le> (1 + ?u) ^ ?n * ((1 + ?u) * (a + x + ?S))"
    using up by (intro mult_left_mono) simp_all
  also have "\<dots> = (1 + ?u) ^ Suc ?n * (a + x + ?S)"
    by (simp add: mult.assoc power_commutes)
  finally have upper: "foldl fadd (rnd (a + x)) xs \<le> (1 + ?u) ^ Suc ?n * (a + x + ?S)"
    using ih by linarith
  have step: "foldl fadd a (x # xs) = foldl fadd (rnd (a + x)) xs"
    by (simp only: foldl_Cons fadd_def [of a x])
  from lower upper show ?case
    by (simp only: step length_Cons sum_list.Cons add.assoc [symmetric] simp_thms)
qed

lemma power_27_bounds:
  "(1 + 1 / 2 ^ 53 :: real) ^ 27 \<le> 1 + 1 / 2 ^ 48" "1 - 1 / 2 ^ 48 \<le> (1 - 1 / 2 ^ 53 :: real) ^ 27"
  by (simp_all add: power_divide)

lemma double_sum_createSimpleEmbedding:
  assumes "total_letters text \<noteq> 0"
  shows "\<bar>double_sum (createSimpleEmbedding text) - 1\<bar> \<le> 1 / 2 ^ 48"
proof -
  let ?u = "1 / 2 ^ 53 :: real"
  let ?e = "createSimpleEmbedding text"
  have s: "1 - ?u \<le> sum_list ?e" "sum_list ?e \<le> 1 + ?u"
    using sum_list_createSimpleEmbedding [OF assms] by linarith+
  have "\<forall>x\<in>set ?e. 0 \<le> x" by (simp add: createSimpleEmbedding_nonneg)
  with foldl_fadd_bounds [of 0 ?e]
  have b: "(1 - ?u) ^ 26 * sum_list ?e \<le> double_sum ?e"
    "double_sum ?e \<le> (1 + ?u) ^ 26 * sum_list ?e"
    by (simp_all add: double_sum_def)
  have "(1 - ?u) ^ 27 = (1 - ?u) ^ 26 * (1 - ?u)" by (simp only: power_Suc2 [symmetric]) simp
  also have "\<dots> \<le> (1 - ?u) ^ 26 * sum_list ?e"
    using s(1) by (intro mult_left_mono) simp_all
  finally have lower: "1 - 1 / 2 ^ 48 \<le> double_sum ?e"
    using b(1) power_27_bounds(2) by linarith
  have "(1 + ?u) ^ 26 * sum_list ?e \<le> (1 + ?u) ^ 26 * (1 + ?u)"
    using s(2) by (intro mult_left_mono) simp_all
  also have "\<dots> = (1 + ?u) ^ 27" by (simp only: power_Suc2 [symmetric]) simp
  finally have upper: "double_sum ?e \<le> 1 + 1 / 2 ^ 48"
    using b(2) power_27_bounds(1) by linarith
  from lower upper show ?thesis by linarith
qed

lemma createSimpleEmbedding_counts:
  assumes "total_letters text = n" and "n \<noteq> 0"
    and "map (\<lambda>i. letter_count i text) [0 ..< 26] = cs"
  shows "createSimpleEmbedding text = map (\<lambda>c. rnd (real c / real n)) cs"
proof -
  have "map (\<lambda>c. rnd (real c / real n)) (map (\<lambda>i. letter_count i text) [0 ..< 26])
        = createSimpleEmbedding text"
    using assms(1,2) by (simp only: createSimpleEmbedding_eq map_map o_def if_False)
  then show ?thesis by (simp only: assms(3))
qed

text \<open>Rounding a given number is evaluated by these equations.\<close>

lemmas rnd_eval = rnd_def Let_def round_even_def expo.simps

lemma letters_example:
  "total_letters ''Ab-1 b'' = 3" "total_letters ''2024'' = 0" "total_letters ''abcdefg'' = 7"
  by code_simp+

lemma counts_abcdefg:
  "map (\<lambda>i. letter_count i ''abcdefg'') [0 ..< 26]
   = [1, 1, 1, 1, 1, 1, 1, 0, 0, 0, 0, 0, 0, 0, 0, 0, 0, 0, 0, 0, 0, 0, 0, 0, 0, 0]"
  by code_simp

lemma rnd_seventh: "rnd (1 / 7) = 2573485501354569 / 18014398509481984"
  by (simp add: rnd_eval)

lemma embedding_abcdefg:
  "createSimpleEmbedding ''abcdefg'' =
     [2573485501354569 / 18014398509481984, 2573485501354569 / 18014398509481984,
      2573485501354569 / 18014398509481984, 2573485501354569 / 18014398509481984,
      2573485501354569 / 18014398509481984, 2573485501354569 / 18014398509481984,
      2573485501354569 / 18014398509481984,
      0, 0, 0, 0, 0, 0, 0, 0, 0, 0, 0, 0, 0, 0, 0, 0, 0, 0, 0]"
  by (simp add: createSimpleEmbedding_counts [OF letters_example(3) _ counts_abcdefg] rnd_seventh)

lemma double_sum_abcdefg:
  "double_sum (createSimpleEmbedding ''abcdefg'') = 4503599627370495 / 4503599627370496"
  by (simp add: embedding_abcdefg double_sum_def fadd_def rnd_eval)

text \<open>
  Claim C6 has entry \<open>i\<close> equal to the count of letter \<open>i\<close> divided by the number of
  letters, and the entries summing to 1. The entries are doubles: for \<^verbatim>\<open>abcdefg\<close> each
  of the seven is the double nearest to \<open>1 / 7\<close>, which is below \<open>1 / 7\<close>; their sum is
  \<open>1 - 2 ^ - 54\<close>, and added one after the other in double arithmetic they give
  \<open>1 - 2 ^ - 52\<close>, which prints as 0.9999999999999998.
\<close>

theorem signature_sum_below_one:
  "total_letters ''abcdefg'' = 7
   \<and> createSimpleEmbedding ''abcdefg'' ! 0 = 2573485501354569 / 18014398509481984
   \<and> createSimpleEmbedding ''abcdefg'' ! 0 \<noteq> 1 / 7
   \<and> sum_list (createSimpleEmbedding ''abcdefg'') = 1 - 1 / 2 ^ 54
   \<and> sum_list (createSimpleEmbedding ''abcdefg'') \<noteq> 1
   \<and> double_sum (createSimpleEmbedding ''abcdefg'') = 1 - 1 / 2 ^ 52
   \<and> double_sum (createSimpleEmbedding ''abcdefg'') \<noteq> 1"
  by (simp add: letters_example double_sum_abcdefg) (simp add: embedding_abcdefg)

text \<open>
  Claim C6, amended. The signature of any text has 26 entries, one per letter
  \<^verbatim>\<open>a-z\<close>; entry \<open>i\<close> is the double nearest to the number of occurrences of letter
  \<open>i\<close> in the lowercased text divided by the number of letters of the lowercased text.
  When the text has no letter all entries are 0. When it has one, the entries sum to 1
  up to rounding: their sum differs from 1 by at most \<open>2 ^ - 53\<close>, and their sum in
  double arithmetic, taken from the first entry to the last, by at most \<open>2 ^ - 48\<close>.
\<close>

theorem createSimpleEmbedding_signature:
  "createSimpleEmbedding text =
     map (\<lambda>i. if total_letters text = 0 then 0
               else rnd (real (letter_count i text) / real (total_letters text))) [0 ..< 26]
   \<and> length (createSimpleEmbedding text) = 26
   \<and> (if total_letters text = 0 then createSimpleEmbedding text = replicate 26 0
       else \<bar>sum_list (createSimpleEmbedding text) - 1\<bar> \<le> 1 / 2 ^ 53
            \<and> \<bar>double_sum (createSimpleEmbedding text) - 1\<bar> \<le> 1 / 2 ^ 48)"
proof -
  have "createSimpleEmbedding text =
     map (\<lambda>i. if total_letters text = 0 then 0
               else rnd (real (letter_count i text) / real (total_letters text))) [0 ..< 26]"
    by (rule createSimpleEmbedding_eq)
  moreover have "length (createSimpleEmbedding text) = 26"
    by (rule length_createSimpleEmbedding)
  moreover have "if total_letters text = 0 then createSimpleEmbedding text = replicate 26 0
       else \<bar>sum_list (createSimpleEmbedding text) - 1\<bar> \<le> 1 / 2 ^ 53
            \<and> \<bar>double_sum (createSimpleEmbedding text) - 1\<bar> \<le> 1 / 2 ^ 48"
    using createSimpleEmbedding_no_letters [of "text"] sum_list_createSimpleEmbedding [of "text"]
      double_sum_createSimpleEmbedding [of "text"]
    by simp
  ultimately show ?thesis by blast
qed

theorem createSimpleEmbedding_signature_witness:
  "length (createSimpleEmbedding ''Ab-1 b'') = 26
   \<and> createSimpleEmbedding ''Ab-1 b'' ! 1 = rnd (2 / 3)
   \<and> \<bar>sum_list (createSimpleEmbedding ''Ab-1 b'') - 1\<bar> \<le> 1 / 2 ^ 53
   \<and> \<bar>double_sum (createSimpleEmbedding ''Ab-1 b'') - 1\<bar> \<le> 1 / 2 ^ 48
   \<and> createSimpleEmbedding ''2024'' = replicate 26 0"
proof -
  have c: "letter_count (Suc 0) ''Ab-1 b'' = 2" by code_simp
  from createSimpleEmbedding_signature [of "''Ab-1 b''"]
  have "createSimpleEmbedding ''Ab-1 b'' =
     map (\<lambda>i. if total_letters ''Ab-1 b'' = 0 then 0
               else rnd (real (letter_count i ''Ab-1 b'') / real (total_letters ''Ab-1 b''))) [0 ..< 26]"
    and "length (createSimpleEmbedding ''Ab-1 b'') = 26"
    and "if total_letters ''Ab-1 b'' = 0 then createSimpleEmbedding ''Ab-1 b'' = replicate 26 0
       else \<bar>sum_list (createSimpleEmbedding ''Ab-1 b'') - 1\<bar> \<le> 1 / 2 ^ 53
            \<and> \<bar>double_sum (createSimpleEmbedding ''Ab-1 b'') - 1\<bar> \<le> 1 / 2 ^ 48"
    by blast+
  then have "createSimpleEmbedding ''Ab-1 b'' ! 1 = rnd (2 / 3)"
    and "length (createSimpleEmbedding ''Ab-1 b'') = 26"
    and "\<bar>sum_list (createSimpleEmbedding ''Ab-1 b'') - 1\<bar> \<le> 1 / 2 ^ 53
         \<and> \<bar>double_sum (createSimpleEmbedding ''Ab-1 b'') - 1\<bar> \<le> 1 / 2 ^ 48"
    by (simp_all add: letters_example c)
  moreover from createSimpleEmbedding_signature [of "''2024''"]
  have "if total_letters ''2024'' = 0 then createSimpleEmbedding ''2024'' = replicate 26 0
        else \<bar>sum_list (createSimpleEmbedding ''2024'') - 1\<bar> \<le> 1 / 2 ^ 53
            \<and> \<bar>double_sum (createSimpleEmbedding ''2024'') - 1\<bar> \<le> 1 / 2 ^ 48"
    by blast
  ultimately show ?thesis by (simp add: letters_example)
qed

section \<open>Keyword extraction\<close>

lemma js_slice0_nonneg: "0 \<le> n \<Longrightarrow> js_slice0 n xs = take (nat n) xs"
  by (simp add: js_slice0_def Let_def min_def)

lemma insort_cmp_key:
  fixes key :: "'a \<Rightarrow> 'k::linorder"
  assumes "\<And>x y. js_positive (cmp x y) \<longleftrightarrow> key y < key x"
  shows "insort_cmp cmp x ys = insort_key key x ys"
  by (induction ys) (auto simp: assms)

lemma js_sort_key:
  fixes key :: "'a \<Rightarrow> 'k::linorder"
  assumes "\<And>x y. js_positive (cmp x y) \<longleftrightarrow> key y < key x"
  shows "js_sort cmp xs = sort_key key xs"
  by (induction xs) (simp_all add: js_sort_def insort_cmp_key [OF assms])

lemma stable_sorted_wrt:
  fixes key :: "'a \<Rightarrow> 'k::linorder"
  assumes "sorted (map key xs)"
    and "\<And>k. sorted_wrt R (filter (\<lambda>y. key y = k) xs)"
  shows "sorted_wrt (\<lambda>a b. key a \<le> key b \<and> (key a = key b \<longrightarrow> R a b)) xs"
  using assms
proof (induction xs)
  case Nil
  then show ?case by simp
next
  case (Cons x xs)
  have tail: "sorted_wrt R (filter (\<lambda>y. key y = k) xs)" for k
    using Cons.prems(2) [of k] by (cases "key x = k") simp_all
  have "sorted_wrt (\<lambda>a b. key a \<le> key b \<and> (key a = key b \<longrightarrow> R a b)) xs"
    using Cons.prems(1) tail by (intro Cons.IH) simp_all
  moreover have "key x \<le> key y \<and> (key x = key y \<longrightarrow> R x y)" if "y \<in> set xs" for y
  proof
    show "key x \<le> key y" using Cons.prems(1) that by simp
    show "key x = key y \<longrightarrow> R x y"
    proof
      assume e: "key x = key y"
      from Cons.prems(2) [of "key x"] have "\<forall>z\<in>set (filter (\<lambda>y. key y = key x) xs). R x z"
        by simp
      with that e show "R x y" by simp
    qed
  qed
  ultimately show ?case by simp
qed

lemma count_word_keyed:
  "distinct ks \<Longrightarrow>
   count_word (map (\<lambda>k. (k, f k)) ks) w =
     (if w \<in> set ks then map (\<lambda>k. (k, if k = w then f k + 1 else f k)) ks
      else map (\<lambda>k. (k, f k)) ks @ [(w, 1)])"
  by (induction ks) auto

lemma firsts_snoc: "firsts (ws @ [w]) = (if w \<in> set ws then firsts ws else firsts ws @ [w])"
  by (simp add: firsts_def)

lemma set_firsts [simp]: "set (firsts ws) = set ws"
  by (simp add: firsts_def)

lemma distinct_firsts [simp]: "distinct (firsts ws)"
  by (simp add: firsts_def)

lemma wordCounts_eq:
  "foldl count_word [] ws = map (\<lambda>w. (w, count_list ws w)) (firsts ws)"
proof (induction ws rule: rev_induct)
  case Nil
  then show ?case by (simp add: firsts_def)
next
  case (snoc w ws)
  show ?case
  proof (cases "w \<in> set ws")
    case True
    then show ?thesis
      by (simp add: snoc.IH count_word_keyed firsts_snoc)
  next
    case False
    then have "count_list (ws @ [w]) w = 1" by (simp add: count_list_0_iff)
    moreover have "map (\<lambda>k. (k, count_list (ws @ [w]) k)) (firsts ws)
                   = map (\<lambda>k. (k, count_list ws k)) (firsts ws)"
      using False by (intro map_cong) auto
    ultimately show ?thesis
      using False by (simp add: snoc.IH count_word_keyed firsts_snoc del: count_list_append)
  qed
qed

lemma first_index_snoc_old: "k \<in> set ws \<Longrightarrow> first_index (ws @ [w]) k = first_index ws k"
  by (simp add: first_index_def)

lemma first_index_snoc_new: "w \<notin> set ws \<Longrightarrow> first_index (ws @ [w]) w = length ws"
proof -
  assume "w \<notin> set ws"
  then have "takeWhile (\<lambda>y. y \<noteq> w) (ws @ [w]) = ws @ takeWhile (\<lambda>y. y \<noteq> w) [w]"
    by (intro takeWhile_append2) auto
  then show ?thesis by (simp add: first_index_def)
qed

lemma first_index_less: "k \<in> set ws \<Longrightarrow> first_index ws k < length ws"
  unfolding first_index_def by (induction ws) auto

lemma sorted_firsts:
  "sorted_wrt (\<lambda>a b. first_index ws a < first_index ws b) (firsts ws)"
proof (induction ws rule: rev_induct)
  case Nil
  then show ?case by (simp add: firsts_def)
next
  case (snoc w ws)
  have old: "sorted_wrt (\<lambda>a b. first_index (ws @ [w]) a < first_index (ws @ [w]) b) (firsts ws)"
    using snoc.IH
    by (rule sorted_wrt_mono_rel [rotated]) (simp add: first_index_snoc_old)
  show ?case
  proof (cases "w \<in> set ws")
    case True
    with old show ?thesis by (simp add: firsts_snoc)
  next
    case False
    then have "first_index (ws @ [w]) k < first_index (ws @ [w]) w" if "k \<in> set ws" for k
      using that by (simp add: first_index_snoc_old first_index_snoc_new first_index_less)
    with old False show ?thesis
      by (simp add: firsts_snoc sorted_wrt_append)
  qed
qed

lemma extractKeywords_eq:
  "extractKeywords text =
     take 10 (map fst (sort_key (\<lambda>p. - int (snd p))
       (map (\<lambda>w. (w, count_list (tokenize text) w)) (firsts (tokenize text)))))"
proof -
  have "js_sort (\<lambda>a b. Num (real (snd b) - real (snd a))) xs = sort_key (\<lambda>p. - int (snd p)) xs"
    for xs :: "(string \<times> nat) list"
    by (rule js_sort_key) simp
  then show ?thesis
    by (simp add: extractKeywords_def Let_def wordCounts_eq js_slice0_nonneg take_map)
qed

lemma set_keyword_ranking: "set (keyword_ranking toks) = set toks"
  by (simp add: keyword_ranking_def image_image)

lemma distinct_keyword_ranking: "distinct (keyword_ranking toks)"
proof -
  let ?wc = "map (\<lambda>w. (w, count_list toks w)) (firsts toks)"
  have "map fst ?wc = firsts toks" by (simp add: o_def)
  then have "distinct (map fst ?wc)" by simp
  then show ?thesis
    unfolding keyword_ranking_def by (simp only: distinct_map set_sort distinct_sort)
qed

lemma sorted_keyword_ranking: "sorted_wrt (ranks_before toks) (keyword_ranking toks)"
proof -
  let ?key = "\<lambda>p :: string \<times> nat. - int (snd p)"
  let ?wc = "map (\<lambda>w. (w, count_list toks w)) (firsts toks)"
  let ?R = "\<lambda>a b :: string \<times> nat. first_index toks (fst a) < first_index toks (fst b)"
  let ?s = "sort_key ?key ?wc"
  have wc: "sorted_wrt ?R ?wc"
    using sorted_firsts [of toks] by (simp add: sorted_wrt_map)
  have "sorted_wrt ?R (filter (\<lambda>y. ?key y = k) ?s)" for k
    using wc by (simp only: sort_key_stable sorted_wrt_filter)
  then have "sorted_wrt (\<lambda>a b. ?key a \<le> ?key b \<and> (?key a = ?key b \<longrightarrow> ?R a b)) ?s"
    by (intro stable_sorted_wrt) simp_all
  then have "sorted_wrt (\<lambda>a b. ranks_before toks (fst a) (fst b)) ?s"
  proof (rule sorted_wrt_mono_rel [rotated])
    fix a b
    assume "a \<in> set ?s" "b \<in> set ?s"
      and q: "?key a \<le> ?key b \<and> (?key a = ?key b \<longrightarrow> ?R a b)"
    then have "snd a = count_list toks (fst a)" "snd b = count_list toks (fst b)"
      by auto
    with q show "ranks_before toks (fst a) (fst b)"
      by (auto simp: ranks_before_def)
  qed
  then show ?thesis
    by (simp add: keyword_ranking_def sorted_wrt_map)
qed

text \<open>
  Claim C7. \<^verbatim>\<open>extractKeywords\<close> returns the first 10 entries of the ranking of the
  tokens of the text: the distinct tokens, each before every less frequent one and before
  every equally frequent one first met later. Hence at most 10 keywords, none a stop
  word and none of length 2 or less, no keyword twice, in descending frequency with ties
  in the order first met. The result is a function of the text alone.
\<close>

theorem extractKeywords_ranked:
  "extractKeywords text = take 10 (keyword_ranking (tokenize text))
   \<and> set (keyword_ranking (tokenize text)) = set (tokenize text)
   \<and> distinct (keyword_ranking (tokenize text))
   \<and> sorted_wrt (ranks_before (tokenize text)) (keyword_ranking (tokenize text))
   \<and> length (extractKeywords text) \<le> 10
   \<and> list_all (\<lambda>k. k \<notin> set stopWords \<and> 2 < length k) (extractKeywords text)
   \<and> distinct (extractKeywords text)
   \<and> sorted_wrt (ranks_before (tokenize text)) (extractKeywords text)"
proof -
  have eq: "extractKeywords text = take 10 (keyword_ranking (tokenize text))"
    by (simp add: extractKeywords_eq keyword_ranking_def)
  have "set (extractKeywords text) \<subseteq> set (tokenize text)"
    unfolding eq using set_take_subset [of 10 "keyword_ranking (tokenize text)"]
    by (simp add: set_keyword_ranking)
  then have ok: "list_all (\<lambda>k. k \<notin> set stopWords \<and> 2 < length k) (extractKeywords text)"
    by (auto simp: list_all_iff tokenize_def)
  show ?thesis
    using ok by (simp add: eq [symmetric] set_keyword_ranking distinct_keyword_ranking sorted_keyword_ranking)
      (simp add: eq distinct_keyword_ranking sorted_keyword_ranking)
qed

lemma keywords_example:
  "extractKeywords ''The refund: pay the invoice, then REFUND the invoice; refund it!''
   = [''refund'', ''invoice'', ''pay'', ''then'']"
  by code_simp

lemma tokens_example:
  "tokenize ''The refund: pay the invoice, then REFUND the invoice; refund it!''
   = [''refund'', ''pay'', ''invoice'', ''then'', ''refund'', ''invoice'', ''refund'']"
  by code_simp

theorem extractKeywords_ranked_witness:
  "extractKeywords ''The refund: pay the invoice, then REFUND the invoice; refund it!''
     = [''refund'', ''invoice'', ''pay'', ''then'']
   \<and> sorted_wrt
        (ranks_before [''refund'', ''pay'', ''invoice'', ''then'', ''refund'', ''invoice'', ''refund''])
        [''refund'', ''invoice'', ''pay'', ''then'']"
  using extractKeywords_ranked [of "''The refund: pay the invoice, then REFUND the invoice; refund it!''"]
  by (simp only: keywords_example tokens_example) simp

section \<open>Cosine similarity\<close>

lemma cosine_foldl:
  "foldl (\<lambda>(dotProduct, normA, normB) i.
              (fadd dotProduct (fmul (vecA ! i) (vecB ! i)),
               fadd normA (fmul (vecA ! i) (vecA ! i)),
               fadd normB (fmul (vecB ! i) (vecB ! i)))) (d, x, y) [0 ..< n]
   = (foldl (\<lambda>s i. fadd s (fmul (vecA ! i) (vecB ! i))) d [0 ..< n],
      foldl (\<lambda>s i. fadd s (fmul (vecA ! i) (vecA ! i))) x [0 ..< n],
      foldl (\<lambda>s i. fadd s (fmul (vecB ! i) (vecB ! i))) y [0 ..< n])"
  by (induction n) simp_all

lemma foldl_nth:
  "n \<le> length xs \<Longrightarrow> foldl (\<lambda>s i. f s (xs ! i)) a [0 ..< n] = foldl f a (take n xs)"
proof (induction n)
  case 0
  then show ?case by simp
next
  case (Suc n)
  then show ?case by (simp add: take_Suc_conv_app_nth)
qed

lemma foldl_nth_zip:
  "n \<le> length xs \<Longrightarrow> n \<le> length ys \<Longrightarrow>
   foldl (\<lambda>s i. f s (xs ! i) (ys ! i)) a [0 ..< n]
   = foldl (\<lambda>s (x, y). f s x y) a (zip (take n xs) (take n ys))"
proof (induction n)
  case 0
  then show ?case by simp
next
  case (Suc n)
  then have "zip (take (Suc n) xs) (take (Suc n) ys)
             = zip (take n xs) (take n ys) @ [(xs ! n, ys ! n)]"
    by (simp add: take_Suc_conv_app_nth)
  with Suc show ?case by simp
qed

lemma cosine_loop_lists:
  assumes "length vecA = length vecB"
  shows "cosine_loop vecA vecB = (dot_loop vecA vecB, norm_loop vecA, norm_loop vecB)"
proof -
  have "foldl (\<lambda>s i. fadd s (fmul (vecA ! i) (vecB ! i))) 0 [0 ..< length vecA] = dot_loop vecA vecB"
    using foldl_nth_zip [of "length vecA" vecA vecB "\<lambda>s a b. fadd s (fmul a b)" 0] assms
    by (simp add: dot_loop_def)
  moreover have "foldl (\<lambda>s i. fadd s (fmul (vecA ! i) (vecA ! i))) 0 [0 ..< length vecA] = norm_loop vecA"
    using foldl_nth [of "length vecA" vecA "\<lambda>s a. fadd s (fmul a a)" 0]
    by (simp add: norm_loop_def)
  moreover have "foldl (\<lambda>s i. fadd s (fmul (vecB ! i) (vecB ! i))) 0 [0 ..< length vecA] = norm_loop vecB"
    using foldl_nth [of "length vecB" vecB "\<lambda>s a. fadd s (fmul a a)" 0] assms
    by (simp add: norm_loop_def)
  ultimately show ?thesis
    by (simp only: cosine_loop_def cosine_foldl)
qed

lemma norm_foldl_nonneg:
  "0 \<le> s \<Longrightarrow> 0 \<le> foldl (\<lambda>s a. fadd s (fmul a a)) s vec"
proof (induction vec arbitrary: s)
  case Nil
  then show ?case by simp
next
  case (Cons a vec)
  have "0 \<le> fadd s (fmul a a)"
    using Cons.prems by (simp add: fadd_def fmul_def rnd_nonneg)
  then show ?case by (simp add: Cons.IH)
qed

lemma norm_foldl_zero_iff:
  "0 \<le> s \<Longrightarrow>
   foldl (\<lambda>s a. fadd s (fmul a a)) s vec = 0 \<longleftrightarrow> s = 0 \<and> (\<forall>a\<in>set vec. a = 0)"
proof (induction vec arbitrary: s)
  case Nil
  then show ?case by simp
next
  case (Cons a vec)
  have sq: "0 \<le> rnd (a * a)" by (simp add: rnd_nonneg)
  then have nn: "0 \<le> fadd s (fmul a a)"
    using Cons.prems by (simp add: fadd_def fmul_def rnd_nonneg)
  have "fadd s (fmul a a) = 0 \<longleftrightarrow> s = 0 \<and> a = 0"
  proof -
    have "fadd s (fmul a a) = 0 \<longleftrightarrow> s + rnd (a * a) = 0" by (simp add: fadd_def fmul_def)
    also have "\<dots> \<longleftrightarrow> s = 0 \<and> rnd (a * a) = 0" using Cons.prems sq by linarith
    finally show ?thesis by simp
  qed
  with Cons.IH [OF nn] show ?case by auto
qed

lemma norm_loop_nonneg: "0 \<le> norm_loop vec"
  by (simp add: norm_loop_def norm_foldl_nonneg)

lemma norm_loop_zero_iff: "norm_loop vec = 0 \<longleftrightarrow> (\<forall>a\<in>set vec. a = 0)"
  by (simp add: norm_loop_def norm_foldl_zero_iff)

lemma dot_loop_zero:
  assumes "\<forall>(a, b)\<in>set (zip vecA vecB). a = 0 \<or> b = 0"
  shows "dot_loop vecA vecB = 0"
proof -
  have "foldl (\<lambda>s (a, b). fadd s (fmul a b)) 0 ps = 0" if "\<forall>(a, b)\<in>set ps. a = 0 \<or> b = 0" for ps
    using that by (induction ps) (auto simp: fadd_def fmul_def)
  with assms show ?thesis by (simp add: dot_loop_def)
qed

lemma dot_loop_self: "dot_loop vec vec = norm_loop vec"
proof -
  have "foldl (\<lambda>s (a, b). fadd s (fmul a b)) s (zip vec vec) = foldl (\<lambda>s a. fadd s (fmul a a)) s vec"
    for s
    by (induction vec arbitrary: s) simp_all
  then show ?thesis by (simp add: dot_loop_def norm_loop_def)
qed

lemma fsqrt_0 [simp]: "fsqrt 0 = 0"
  by (simp add: fsqrt_def)

lemma fsqrt_pos: "0 < x \<Longrightarrow> 0 < fsqrt x"
  by (simp add: fsqrt_def)

text \<open>The scorer on two vectors of equal length: NaN when one of them is all zero,
  a number otherwise, and 0 when no position has two non-zero entries.\<close>

lemma cosine_value_zero_norm:
  assumes len: "length vecA = length vecB"
    and z: "(\<forall>a\<in>set vecA. a = 0) \<or> (\<forall>b\<in>set vecB. b = 0)"
  shows "cosine_value vecA vecB = NaN"
proof -
  have "\<forall>(a, b)\<in>set (zip vecA vecB). a = 0 \<or> b = 0"
    using z by (auto dest: set_zip_leftD set_zip_rightD)
  then have dot: "dot_loop vecA vecB = 0" by (rule dot_loop_zero)
  have "norm_loop vecA = 0 \<or> norm_loop vecB = 0"
    using z by (simp add: norm_loop_zero_iff)
  then have den: "fmul (fsqrt (norm_loop vecA)) (fsqrt (norm_loop vecB)) = 0"
    by (auto simp: fmul_def)
  show ?thesis
    by (simp add: cosine_value_def cosine_loop_lists [OF len] dot den js_div_def)
qed

lemma cosine_value_finite:
  assumes len: "length vecA = length vecB"
    and a: "\<exists>a\<in>set vecA. a \<noteq> 0" and b: "\<exists>b\<in>set vecB. b \<noteq> 0"
  shows "cosine_value vecA vecB =
     Num (fdiv (dot_loop vecA vecB) (fmul (fsqrt (norm_loop vecA)) (fsqrt (norm_loop vecB))))"
proof -
  have "0 < norm_loop vecA" "0 < norm_loop vecB"
    using a b norm_loop_nonneg [of vecA] norm_loop_nonneg [of vecB]
      norm_loop_zero_iff [of vecA] norm_loop_zero_iff [of vecB]
    by (auto simp: less_le)
  then have "fsqrt (norm_loop vecA) \<noteq> 0" "fsqrt (norm_loop vecB) \<noteq> 0"
    using fsqrt_pos [of "norm_loop vecA"] fsqrt_pos [of "norm_loop vecB"] by simp_all
  then have "fmul (fsqrt (norm_loop vecA)) (fsqrt (norm_loop vecB)) \<noteq> 0"
    by (simp add: fmul_def)
  then show ?thesis
    by (simp add: cosine_value_def cosine_loop_lists [OF len] js_div_def)
qed

lemma cosine_value_orthogonal:
  assumes "length vecA = length vecB"
    and "\<exists>a\<in>set vecA. a \<noteq> 0" and "\<exists>b\<in>set vecB. b \<noteq> 0"
    and "\<forall>(a, b)\<in>set (zip vecA vecB). a = 0 \<or> b = 0"
  shows "cosine_value vecA vecB = Num 0"
  using cosine_value_finite [OF assms(1-3)] dot_loop_zero [OF assms(4)]
  by (simp add: fdiv_def)

text \<open>How a square root is evaluated.\<close>

lemma fsqrt_eqI:
  assumes "2 ^ 52 < m" and "m < 2 ^ 53"
    and "((of_int m - 1 / 2) * 2 powi e)\<^sup>2 < x" and "x < ((of_int m + 1 / 2) * 2 powi e)\<^sup>2"
  shows "fsqrt x = of_int m * 2 powi e"
  unfolding fsqrt_def
proof (rule rnd_eqI [OF assms(1,2)])
  show "(of_int m - 1 / 2) * 2 powi e < sqrt x"
    using assms(3) by (rule real_less_rsqrt)
  have "(0::real) \<le> of_int m + 1 / 2" using assms(1) by simp
  then have "0 \<le> (of_int m + 1 / 2) * (2::real) powi e" by simp
  then show "sqrt x < (of_int m + 1 / 2) * 2 powi e"
    using assms(4) by (intro real_less_lsqrt) simp_all
qed

lemma embedding_empty: "createSimpleEmbedding [] = replicate 26 0"
  by code_simp

text \<open>
  Claim C4 asks for the score 0 when a vector has norm zero. The scorer divides without
  a test: by \<open>cosine_value_zero_norm\<close> every pair of vectors of equal length of which
  one is all zero gives NaN. Here at the signature of the empty text against the
  signature of \<^verbatim>\<open>a\<close>.
\<close>

theorem cosineSimilarity_zero_vector:
  "cosineSimilarity (createSimpleEmbedding []) (createSimpleEmbedding ''a'') = Inr NaN"
proof -
  have "cosine_value (replicate 26 0) (createSimpleEmbedding ''a'') = NaN"
    by (rule cosine_value_zero_norm) simp_all
  then show ?thesis
    by (simp add: cosineSimilarity_def embedding_empty)
qed

section \<open>The similarity of two signatures\<close>

lemma letter_exists:
  assumes "total_letters text \<noteq> 0"
  shows "\<exists>i<26. letter_count i text \<noteq> 0"
proof (rule ccontr)
  assume "\<not> (\<exists>i<26. letter_count i text \<noteq> 0)"
  then have "(\<Sum>i<26. letter_count i text) = 0" by simp
  then have "total_letters text = 0"
    by (simp only: letter_count_def total_letters_def sum_letter_counts)
  with assms show False by simp
qed

lemma createSimpleEmbedding_nth:
  "i < 26 \<Longrightarrow>
   createSimpleEmbedding text ! i =
     (if total_letters text = 0 then 0
      else rnd (real (letter_count i text) / real (total_letters text)))"
  by (simp add: createSimpleEmbedding_eq)

lemma createSimpleEmbedding_all_zero_iff:
  "(\<forall>a\<in>set (createSimpleEmbedding text). a = 0) \<longleftrightarrow> total_letters text = 0"
proof
  assume z: "\<forall>a\<in>set (createSimpleEmbedding text). a = 0"
  show "total_letters text = 0"
  proof (rule ccontr)
    assume n: "total_letters text \<noteq> 0"
    then obtain i where i: "i < 26" "letter_count i text \<noteq> 0"
      using letter_exists by blast
    then have "createSimpleEmbedding text ! i \<noteq> 0"
      using n by (simp add: createSimpleEmbedding_nth)
    moreover have "createSimpleEmbedding text ! i \<in> set (createSimpleEmbedding text)"
      using i(1) by (intro nth_mem) simp
    ultimately show False using z by blast
  qed
next
  assume "total_letters text = 0"
  then show "\<forall>a\<in>set (createSimpleEmbedding text). a = 0"
    by (simp add: createSimpleEmbedding_no_letters)
qed

text \<open>The scorer gives NaN exactly when one of the two texts has no letter.\<close>

lemma cosine_value_signatures:
  "cosine_value (createSimpleEmbedding s) (createSimpleEmbedding t) =
     (if total_letters s = 0 \<or> total_letters t = 0 then NaN
      else Num (fdiv (dot_loop (createSimpleEmbedding s) (createSimpleEmbedding t))
                  (fmul (fsqrt (norm_loop (createSimpleEmbedding s)))
                     (fsqrt (norm_loop (createSimpleEmbedding t))))))"
proof (cases "total_letters s = 0 \<or> total_letters t = 0")
  case True
  have len: "length (createSimpleEmbedding s) = length (createSimpleEmbedding t)"
    by (simp only: length_createSimpleEmbedding)
  from True have "(\<forall>a\<in>set (createSimpleEmbedding s). a = 0) \<or> (\<forall>b\<in>set (createSimpleEmbedding t). b = 0)"
    by (simp only: createSimpleEmbedding_all_zero_iff)
  with len have "cosine_value (createSimpleEmbedding s) (createSimpleEmbedding t) = NaN"
    by (rule cosine_value_zero_norm)
  with True show ?thesis by (simp only: if_True)
next
  case False
  have len: "length (createSimpleEmbedding s) = length (createSimpleEmbedding t)"
    by (simp only: length_createSimpleEmbedding)
  from False have "\<not> (\<forall>a\<in>set (createSimpleEmbedding s). a = 0)"
    "\<not> (\<forall>b\<in>set (createSimpleEmbedding t). b = 0)"
    by (simp_all only: createSimpleEmbedding_all_zero_iff de_Morgan_disj simp_thms)
  then have "\<exists>a\<in>set (createSimpleEmbedding s). a \<noteq> 0" "\<exists>b\<in>set (createSimpleEmbedding t). b \<noteq> 0"
    by blast+
  with len have "cosine_value (createSimpleEmbedding s) (createSimpleEmbedding t) =
     Num (fdiv (dot_loop (createSimpleEmbedding s) (createSimpleEmbedding t))
            (fmul (fsqrt (norm_loop (createSimpleEmbedding s)))
               (fsqrt (norm_loop (createSimpleEmbedding t)))))"
    by (rule cosine_value_finite)
  with False show ?thesis by (simp only: if_False)
qed

text \<open>Two texts with letters but without a common letter have similarity 0.\<close>

lemma cosine_signatures_orthogonal:
  assumes s: "total_letters s \<noteq> 0" and t: "total_letters t \<noteq> 0"
    and o: "list_all (\<lambda>i. letter_count i s = 0 \<or> letter_count i t = 0) [0 ..< 26]"
  shows "cosine_value (createSimpleEmbedding s) (createSimpleEmbedding t) = Num 0"
proof -
  have "a = 0 \<or> b = 0" if "(a, b) \<in> set (zip (createSimpleEmbedding s) (createSimpleEmbedding t))"
    for a b
  proof -
    from that obtain i where i: "i < 26"
      and ab: "a = createSimpleEmbedding s ! i" "b = createSimpleEmbedding t ! i"
      by (auto simp: set_zip)
    from o i have "letter_count i s = 0 \<or> letter_count i t = 0"
      by (simp add: list_all_iff)
    then show ?thesis
      using i by (auto simp: ab createSimpleEmbedding_nth)
  qed
  then have "dot_loop (createSimpleEmbedding s) (createSimpleEmbedding t) = 0"
    by (intro dot_loop_zero) blast
  with s t show ?thesis
    by (simp add: cosine_value_signatures fdiv_def)
qed

section \<open>Relationship inference and initialization\<close>

lemma infer_related_eq:
  assumes "\<forall>otherChunk\<in>set cs. length (embedding otherChunk) = length (embedding chunk)"
  shows "infer_related chunk cs related = Inr (related @ map id' (filter (related_to chunk) cs))"
  using assms
proof (induction cs arbitrary: related)
  case Nil
  then show ?case by simp
next
  case (Cons otherChunk cs)
  then have len: "length (embedding chunk) = length (embedding otherChunk)" by simp
  have ih: "infer_related chunk cs r = Inr (r @ map id' (filter (related_to chunk) cs))" for r
    using Cons.prems by (intro Cons.IH) simp
  show ?case
    by (cases "id' chunk = id' otherChunk")
      (simp_all add: ih len cosineSimilarity_def related_to_def [of chunk otherChunk] eq_commute)
qed

lemma resolve_fields [simp]:
  "id' (resolve corpus c) = id' c"
  "keywords' (resolve corpus c) = keywords' c"
  "autoKeywords (resolve corpus c) = autoKeywords c"
  "embedding (resolve corpus c) = embedding c"
  "title (resolve corpus c) = title c"
  "content (resolve corpus c) = content c"
  by (simp_all add: resolve_def)

lemma related_to_resolve [simp]: "related_to chunk (resolve corpus c) = related_to chunk c"
  by (simp add: related_to_def keywordOverlap_def)

lemma related_ids_resolve:
  "map id' (filter (related_to chunk) (map (resolve corpus) xs))
   = map id' (filter (related_to chunk) xs)"
  by (induction xs) simp_all

lemma infer_step_at:
  assumes emb: "\<forall>c\<in>set cs. length (embedding c) = 26" and k: "k < length cs"
  shows "infer_step (None, map (resolve cs) (take k cs) @ drop k cs) k
         = (None, map (resolve cs) (take (Suc k) cs) @ drop (Suc k) cs)"
proof -
  let ?cur = "map (resolve cs) (take k cs) @ drop k cs"
  have at: "?cur ! k = cs ! k"
    using k by (simp add: nth_append)
  have split: "drop k cs = cs ! k # drop (Suc k) cs"
    using k by (simp add: Cons_nth_drop_Suc)
  have tk: "take (Suc k) cs = take k cs @ [cs ! k]"
    using k by (simp add: take_Suc_conv_app_nth)
  have lens: "\<forall>otherChunk\<in>set ?cur. length (embedding otherChunk) = length (embedding (cs ! k))"
  proof
    fix otherChunk assume "otherChunk \<in> set ?cur"
    then have "length (embedding otherChunk) = 26"
      using emb by (auto dest: in_set_takeD in_set_dropD)
    moreover have "length (embedding (cs ! k)) = 26" using emb k by simp
    ultimately show "length (embedding otherChunk) = length (embedding (cs ! k))" by simp
  qed
  have ids: "map id' (filter (related_to (cs ! k)) ?cur) = map id' (filter (related_to (cs ! k)) cs)"
  proof -
    have "map id' (filter (related_to (cs ! k)) ?cur)
          = map id' (filter (related_to (cs ! k)) (take k cs)) @ map id' (filter (related_to (cs ! k)) (drop k cs))"
      by (simp add: related_ids_resolve)
    also have "\<dots> = map id' (filter (related_to (cs ! k)) (take k cs @ drop k cs))"
      by (simp only: map_append filter_append)
    finally show ?thesis by (simp only: append_take_drop_id)
  qed
  show ?thesis
  proof (cases "needs_inference (cs ! k)")
    case True
    then have skip: "\<not> (case relatedChunks (cs ! k) of None \<Rightarrow> False | Some rs \<Rightarrow> 0 < length rs)"
      by (auto simp: needs_inference_def)
    have upd: "?cur[k := (cs ! k)\<lparr>relatedChunks := Some (map id' (filter (related_to (cs ! k)) cs))\<rparr>]
               = map (resolve cs) (take (Suc k) cs) @ drop (Suc k) cs"
      using k True by (simp add: list_update_append split tk resolve_def)
    have inf: "infer_related (cs ! k) ?cur [] = Inr (map id' (filter (related_to (cs ! k)) cs))"
      by (simp only: infer_related_eq [OF lens] ids append_Nil)
    show ?thesis
      by (simp only: infer_step_def Let_def at skip inf upd prod.case option.case sum.case if_False)
  next
    case False
    then have skip: "(case relatedChunks (cs ! k) of None \<Rightarrow> False | Some rs \<Rightarrow> 0 < length rs)"
      by (auto simp: needs_inference_def split: option.split)
    have "resolve cs (cs ! k) = cs ! k" using False by (simp add: resolve_def)
    then have same: "?cur = map (resolve cs) (take (Suc k) cs) @ drop (Suc k) cs"
      by (simp add: split tk)
    have "infer_step (None, ?cur) k = (None, ?cur)"
      by (simp only: infer_step_def Let_def at skip prod.case option.case if_True)
    then show ?thesis
      using same by simp
  qed
qed

lemma infer_loop:
  assumes emb: "\<forall>c\<in>set cs. length (embedding c) = 26"
  shows "k \<le> length cs \<Longrightarrow>
         foldl infer_step (None, cs) [0 ..< k] = (None, map (resolve cs) (take k cs) @ drop k cs)"
proof (induction k)
  case 0
  then show ?case by simp
next
  case (Suc k)
  then show ?case
    using infer_step_at [OF emb, of k] by simp
qed

lemma inferChunkRelationships_eq:
  assumes "\<forall>c\<in>set cs. length (embedding c) = 26"
  shows "inferChunkRelationships cs = (None, map (resolve cs) cs)"
  using infer_loop [OF assms, of "length cs"] by (simp add: inferChunkRelationships_def)

lemma embedding_enhance [simp]: "length (embedding (enhance k)) = 26"
  by (simp add: enhance_def)

lemma initialize_new:
  "initialize newRAGService knowledgeChunks prompt =
     (None,
      \<lparr>chunks = map (resolve (map enhance knowledgeChunks)) (map enhance knowledgeChunks),
       isInitialized = True, systemPrompt = prompt,
       chunkMap = set_chunks Map.empty
                    (map (resolve (map enhance knowledgeChunks)) (map enhance knowledgeChunks))\<rparr>)"
proof -
  have "inferChunkRelationships (map enhance knowledgeChunks)
        = (None, map (resolve (map enhance knowledgeChunks)) (map enhance knowledgeChunks))"
    by (rule inferChunkRelationships_eq) auto
  then show ?thesis
    by (simp add: initialize_def newRAGService_def)
qed

section \<open>Lifecycle: the uninitialized engine, re-initialization, the frame of a query\<close>

lemma inferChunkRelationships_Nil: "inferChunkRelationships [] = (None, [])"
  by (simp add: inferChunkRelationships_def)

lemma initialize_new_Nil:
  "initialize newRAGService [] p =
     (None, \<lparr>chunks = [], isInitialized = True, systemPrompt = p, chunkMap = Map.empty\<rparr>)"
  by (simp add: initialize_def newRAGService_def inferChunkRelationships_Nil set_chunks_def)

text \<open>
  Claim C10. On the engine as constructed, before any \<^verbatim>\<open>initialize\<close>,
  \<^verbatim>\<open>getSystemPrompt\<close> returns the empty string and \<^verbatim>\<open>getChunkIds\<close> the empty
  sequence (both are total: neither has a failing branch), \<^verbatim>\<open>isReady\<close> is false, and
  \<^verbatim>\<open>getRelevantContext\<close> is the operation that rejects the state, with NotInitialized.
\<close>

theorem uninitialized_accessors:
  "getSystemPrompt newRAGService = []
   \<and> getChunkIds newRAGService = []
   \<and> isReady newRAGService = False
   \<and> fst (getRelevantContext newRAGService query conversationHistory maxChunks)
       = Inl NotInitialized"
  by (simp add: getSystemPrompt_def getChunkIds_def isReady_def getRelevantContext_def
      newRAGService_def)

text \<open>
  Claim C8. \<^verbatim>\<open>getRelevantContext\<close> writes no field: whatever the engine, the query, the
  history and \<open>maxChunks\<close>, and whether it returns or throws, the corpus, the lookup map,
  the system prompt and the ready flag after the call are the ones before it. (The arrays
  it writes in place are its own: \<^verbatim>\<open>similarities\<close>, which \<^verbatim>\<open>map\<close> creates and
  \<^verbatim>\<open>forEach\<close> and \<^verbatim>\<open>sort\<close> update, and \<^verbatim>\<open>combinedChunks\<close>, a copy that
  \<^verbatim>\<open>push\<close> extends.)
\<close>

theorem getRelevantContext_frame:
  "chunks (snd (getRelevantContext this query conversationHistory maxChunks)) = chunks this
   \<and> chunkMap (snd (getRelevantContext this query conversationHistory maxChunks)) = chunkMap this
   \<and> systemPrompt (snd (getRelevantContext this query conversationHistory maxChunks))
       = systemPrompt this
   \<and> isInitialized (snd (getRelevantContext this query conversationHistory maxChunks))
       = isInitialized this"
  by (simp add: getRelevantContext_def Let_def split: sum.split)

text \<open>
  Claim C9. On a ready engine \<^verbatim>\<open>initialize\<close> is a no-op whatever its arguments: it
  returns without an error and leaves the corpus, the lookup map, the system prompt and
  the ready flag as they were, also for other chunks and another prompt.
\<close>

theorem initialize_ready_noop:
  "isInitialized this \<Longrightarrow> initialize this knowledgeChunks prompt = (None, this)"
  by (simp add: initialize_def)

section \<open>Queries on the initialized engine\<close>

lemma starts_with_prefix: "starts_with hay needle \<longleftrightarrow> prefix needle hay"
  by (induction hay needle rule: starts_with.induct) (auto simp: eq_commute)

lemma includes_str_sublist: "includes_str hay needle \<longleftrightarrow> sublist needle hay"
  by (induction hay) (simp_all add: starts_with_prefix sublist_Cons_right)

lemma score_chunks_eq:
  assumes "\<forall>chunk\<in>set cs. length (embedding chunk) = length queryEmbedding"
  shows "score_chunks queryEmbedding cs
         = Inr (map (\<lambda>chunk. (chunk, cosine_value queryEmbedding (embedding chunk))) cs)"
  using assms by (induction cs) (simp_all add: cosineSimilarity_def)

lemma chunksToProcess_take:
  "chunksToProcess this = take (min (length (chunks this)) 50) (chunks this)"
  by (simp add: chunksToProcess_def js_slice0_def Let_def min_def)

lemma chunks_initialize_new:
  "chunks (snd (initialize newRAGService kcs p)) = map (resolve (map enhance kcs)) (map enhance kcs)"
  by (simp add: initialize_new)

lemma embedding_initialize_new:
  "chunk \<in> set (chunks (snd (initialize newRAGService kcs p))) \<Longrightarrow> length (embedding chunk) = 26"
  by (auto simp: chunks_initialize_new)

lemma similarities_initialize_new:
  "similarities (snd (initialize newRAGService kcs p)) combinedQuery =
     Inr (map (\<lambda>chunk.
            (chunk,
             js_add (cosine_value (createSimpleEmbedding combinedQuery) (embedding chunk))
               (fadd
                  (fmul (real (length (filter (\<lambda>keyword. includes_str (toLowerCase combinedQuery) (toLowerCase keyword))
                                         (keywords' chunk))))
                     (rnd 0.15))
                  (fmul (real (length (filter (\<lambda>keyword. keyword \<in> set (extractKeywords combinedQuery))
                                         (autoKeywords chunk))))
                     (rnd 0.05)))))
          (chunksToProcess (snd (initialize newRAGService kcs p))))"
proof -
  let ?E = "snd (initialize newRAGService kcs p)"
  have "\<forall>chunk\<in>set (chunksToProcess ?E).
          length (embedding chunk) = length (createSimpleEmbedding combinedQuery)"
    by (auto simp: chunksToProcess_take dest!: in_set_takeD embedding_initialize_new)
  then show ?thesis
    by (simp add: similarities_def score_chunks_eq boost_score_def Let_def o_def)
qed

lemma ready_initialized: "isInitialized (ready kcs p)" "fst (initialize newRAGService kcs p) = None"
  by (simp_all add: ready_def initialize_new)

theorem initialize_ready_noop_witness:
  "isInitialized (ready [billing_chunk, faq_chunk] ''first'')
   \<and> initialize (ready [billing_chunk, faq_chunk] ''first'') [] ''second''
       = (None, ready [billing_chunk, faq_chunk] ''first'')"
  using initialize_ready_noop [of "ready [billing_chunk, faq_chunk] ''first''" "[]" "''second''"]
  by (simp add: ready_initialized)

lemma reachable_forms:
  "reachable this \<Longrightarrow> this = newRAGService \<or> (\<exists>kcs p. this = ready kcs p)"
proof (induction rule: reachable.induct)
  case new
  then show ?case by simp
next
  case (init this knowledgeChunks prompt)
  from init.IH show ?case
  proof
    assume "this = newRAGService"
    then show ?thesis by (auto simp: ready_def)
  next
    assume "\<exists>kcs p. this = ready kcs p"
    then obtain kcs p where t: "this = ready kcs p" by blast
    then have "initialize this knowledgeChunks prompt = (None, this)"
      by (simp add: initialize_def ready_initialized)
    with t show ?thesis by auto
  qed
qed

lemma similarities_ready:
  "similarities (ready kcs p) combinedQuery =
     Inr (map (\<lambda>chunk. (chunk, boosted_score combinedQuery chunk))
            (take (min (length (chunks (ready kcs p))) 50) (chunks (ready kcs p))))"
  unfolding ready_def
  by (simp add: similarities_initialize_new chunksToProcess_take boosted_score_def
      includes_str_sublist)

text \<open>
  On an initialized engine with \<open>n\<close> chunks the candidates are the first \<open>min n 50\<close>
  chunks in corpus order, each chunk carries the signature of its title and content, and
  the score of each candidate, as the array holds it when the sort starts, is
  \<open>boosted_score\<close>. These are the scores the result is built from.
\<close>

lemma scored_candidates:
  "chunksToProcess (ready kcs p) = take (min (length (chunks (ready kcs p))) 50) (chunks (ready kcs p))
   \<and> map embedding (chunks (ready kcs p)) = map (\<lambda>k. createSimpleEmbedding (fullText k)) kcs
   \<and> similarities (ready kcs p) combinedQuery =
       Inr (map (\<lambda>chunk. (chunk, boosted_score combinedQuery chunk))
              (take (min (length (chunks (ready kcs p))) 50) (chunks (ready kcs p))))
   \<and> fst (getRelevantContext (ready kcs p) query conversationHistory maxChunks) =
       Inr (build_context (ready kcs p)
              (topChunks_of maxChunks
                 (map (\<lambda>chunk. (chunk, boosted_score (query @ '' '' @ conversationHistory) chunk))
                    (take (min (length (chunks (ready kcs p))) 50) (chunks (ready kcs p))))))"
proof -
  have "map embedding (chunks (ready kcs p)) = map (\<lambda>k. createSimpleEmbedding (fullText k)) kcs"
    by (simp add: ready_def chunks_initialize_new o_def enhance_def)
  then show ?thesis
    by (simp add: chunksToProcess_take similarities_ready getRelevantContext_def Let_def
        ready_initialized)
qed

text \<open>
  Claim C5. Called on a service that is not initialized, \<^verbatim>\<open>getRelevantContext\<close> fails
  with NotInitialized. \<^verbatim>\<open>initialize\<close> on a new service succeeds and makes it ready, and
  on the ready engine \<^verbatim>\<open>getRelevantContext\<close> returns a text for every query, history
  and \<open>maxChunks\<close> (the signatures all have 26 entries, so the scorer's length test never
  fires); on the empty corpus the text is empty.
\<close>

theorem getRelevantContext_failure:
  "(\<not> isInitialized this \<longrightarrow>
      fst (getRelevantContext this query conversationHistory maxChunks) = Inl NotInitialized)
   \<and> fst (initialize newRAGService kcs p) = None
   \<and> isReady (ready kcs p)
   \<and> (\<exists>result. fst (getRelevantContext (ready kcs p) query conversationHistory maxChunks) = Inr result)
   \<and> fst (getRelevantContext (ready [] p) query conversationHistory maxChunks) = Inr []"
proof -
  have "fst (getRelevantContext (ready [] p) query conversationHistory maxChunks) = Inr []"
    by (simp add: getRelevantContext_def Let_def ready_initialized similarities_ready)
      (simp add: ready_def initialize_new_Nil build_context_def topChunks_of_def js_sort_def js_slice0_def relatedChunkIds_def)
  then show ?thesis
    by (simp add: getRelevantContext_def Let_def ready_initialized similarities_ready isReady_def)
qed

theorem getRelevantContext_failure_witness:
  "\<not> isInitialized newRAGService
   \<and> fst (getRelevantContext newRAGService ''refund'' [] 3) = Inl NotInitialized
   \<and> isReady (ready [billing_chunk, faq_chunk] ''prompt'')
   \<and> (\<exists>result. fst (getRelevantContext (ready [billing_chunk, faq_chunk] ''prompt'') ''refund'' [] 3)
                  = Inr result)"
  using getRelevantContext_failure
    [of newRAGService "''refund''" "[]" 3 "[billing_chunk, faq_chunk]" "''prompt''"]
  by (simp add: newRAGService_def)

text \<open>
  Claim C3, amended. After initialization every chunk is the enhanced input chunk, with
  its related-set resolved: a chunk whose curated related-set is absent or empty gets the
  identifiers, in corpus order, of the chunks with another identifier for which at least
  2 entries of its curated keywords followed by its auto-keywords (an entry counted as
  often as it is listed) occur among the other chunk's curated or auto-keywords, or for
  which the similarity of the two signatures, as the scorer computes it in double
  arithmetic, exceeds the double 0.6; a chunk with a non-empty curated related-set
  keeps it.
\<close>

theorem inferred_relations:
  "chunks (ready kcs p) =
     map (\<lambda>chunk.
            if relatedChunks chunk = None \<or> relatedChunks chunk = Some []
            then chunk\<lparr>relatedChunks :=
                   Some (map id'
                     (filter (\<lambda>otherChunk.
                                id' otherChunk \<noteq> id' chunk
                                \<and> (2 \<le> length (filter (\<lambda>keyword. keyword \<in> set (keywords' otherChunk)
                                                                     \<union> set (autoKeywords otherChunk))
                                                   (keywords' chunk @ autoKeywords chunk))
                                   \<or> js_gt (cosine_value (embedding chunk) (embedding otherChunk)) (rnd 0.6)))
                        (map enhance kcs)))\<rparr>
            else chunk)
       (map enhance kcs)"
proof -
  have r: "related_to chunk =
     (\<lambda>otherChunk.
        id' otherChunk \<noteq> id' chunk
        \<and> (2 \<le> length (filter (\<lambda>keyword. keyword \<in> set (keywords' otherChunk)
                                             \<union> set (autoKeywords otherChunk))
                           (keywords' chunk @ autoKeywords chunk))
           \<or> js_gt (cosine_value (embedding chunk) (embedding otherChunk)) (rnd 0.6)))" for chunk
    by (rule ext) (simp add: related_to_def keywordOverlap_def)
  show ?thesis
    unfolding ready_def chunks_initialize_new resolve_def needs_inference_def r ..
qed

section \<open>The billing example: inferred relations\<close>

lemma keywords_billing_faq:
  "extractKeywords (fullText billing_chunk) = [''billing'']"
  "extractKeywords (fullText faq_chunk) = [''faq'']"
  by code_simp+

lemma fields_billing_faq:
  "id' (enhance billing_chunk) = ''billing''" "id' (enhance faq_chunk) = ''faq''"
  "relatedChunks (enhance billing_chunk) = None" "relatedChunks (enhance faq_chunk) = None"
  "keywords' (enhance billing_chunk) = [''billing'']" "keywords' (enhance faq_chunk) = [''billing'']"
  "autoKeywords (enhance billing_chunk) = [''billing'']" "autoKeywords (enhance faq_chunk) = [''faq'']"
  "embedding (enhance billing_chunk) = createSimpleEmbedding (fullText billing_chunk)"
  "embedding (enhance faq_chunk) = createSimpleEmbedding (fullText faq_chunk)"
  by (simp_all add: enhance_def keywords_billing_faq) (simp_all add: billing_chunk_def faq_chunk_def)

lemma letters_billing_faq:
  "total_letters (fullText billing_chunk) = 7" "total_letters (fullText faq_chunk) = 3"
  "list_all (\<lambda>i. letter_count i (fullText billing_chunk) = 0 \<or> letter_count i (fullText faq_chunk) = 0)
     [0 ..< 26]"
  "list_all (\<lambda>i. letter_count i (fullText faq_chunk) = 0 \<or> letter_count i (fullText billing_chunk) = 0)
     [0 ..< 26]"
  by code_simp+

lemma cosines_billing_faq:
  "cosine_value (createSimpleEmbedding (fullText billing_chunk))
     (createSimpleEmbedding (fullText faq_chunk)) = Num 0"
  "cosine_value (createSimpleEmbedding (fullText faq_chunk))
     (createSimpleEmbedding (fullText billing_chunk)) = Num 0"
  by (simp_all add: cosine_signatures_orthogonal letters_billing_faq)

lemma chunks_billing_faq:
  "chunks (ready [billing_chunk, faq_chunk] p) =
      [(enhance billing_chunk)\<lparr>relatedChunks := Some [''faq'']\<rparr>,
       (enhance faq_chunk)\<lparr>relatedChunks := Some []\<rparr>]"
  by (simp add: ready_def chunks_initialize_new resolve_def needs_inference_def related_to_def
      keywordOverlap_def fields_billing_faq cosines_billing_faq)

lemma sets_billing_faq: "overlap_as_sets (enhance billing_chunk) (enhance faq_chunk) = 1"
  by (simp add: overlap_as_sets_def fields_billing_faq)

text \<open>
  The overlap is not the size of an intersection of sets. \<open>billing_chunk\<close> lists
  \<^verbatim>\<open>billing\<close> as a curated keyword and has it as an auto-keyword from its title;
  \<open>faq_chunk\<close> has the curated keyword \<^verbatim>\<open>billing\<close>, and the two signatures are
  orthogonal. The code counts 2 and relates the chunks; the intersection has 1 element,
  so in the words of claim C3 the related-set of the first chunk would be empty.
\<close>

theorem overlap_counts_repetitions:
  "relatedChunks (hd (chunks (ready [billing_chunk, faq_chunk] []))) = Some [''faq'']
   \<and> related_as_sets (chunks (ready [billing_chunk, faq_chunk] []))
         (hd (chunks (ready [billing_chunk, faq_chunk] []))) = []"
proof -
  have "overlap_as_sets ((enhance billing_chunk)\<lparr>relatedChunks := Some [''faq'']\<rparr>)
          ((enhance faq_chunk)\<lparr>relatedChunks := Some []\<rparr>) = 1"
    using sets_billing_faq by (simp add: overlap_as_sets_def)
  then have "related_as_sets (chunks (ready [billing_chunk, faq_chunk] []))
               (hd (chunks (ready [billing_chunk, faq_chunk] []))) = []"
    by (simp add: chunks_billing_faq related_as_sets_def fields_billing_faq cosines_billing_faq)
  then show ?thesis by (simp add: chunks_billing_faq)
qed

section \<open>An example at the threshold\<close>

text \<open>
  The titles \<^verbatim>\<open>a\<close> and \<^verbatim>\<open>aaabbbb\<close> have the signatures \<open>(1, 0, \<dots>)\<close> and
  \<open>(3 / 7, 4 / 7, 0, \<dots>)\<close>, rounded, at an angle whose cosine is \<open>3 / 5\<close>. The scorer
  computes 0.6000000000000001, which exceeds the double 0.6.
\<close>

lemma keywords_short_long:
  "extractKeywords (fullText short_chunk) = []"
  "extractKeywords (fullText long_chunk) = [''aaabbbb'']"
  by code_simp+

lemma fields_short_long:
  "id' (enhance short_chunk) = ''p''" "id' (enhance long_chunk) = ''q''"
  "relatedChunks (enhance short_chunk) = None" "relatedChunks (enhance long_chunk) = None"
  "keywords' (enhance short_chunk) = []" "keywords' (enhance long_chunk) = []"
  "autoKeywords (enhance short_chunk) = []" "autoKeywords (enhance long_chunk) = [''aaabbbb'']"
  "embedding (enhance short_chunk) = createSimpleEmbedding (fullText short_chunk)"
  "embedding (enhance long_chunk) = createSimpleEmbedding (fullText long_chunk)"
  by (simp_all add: enhance_def keywords_short_long) (simp_all add: short_chunk_def long_chunk_def)

lemma counts_short_long:
  "total_letters (fullText short_chunk) = 1" "total_letters (fullText long_chunk) = 7"
  "map (\<lambda>i. letter_count i (fullText short_chunk)) [0 ..< 26]
   = [1, 0, 0, 0, 0, 0, 0, 0, 0, 0, 0, 0, 0, 0, 0, 0, 0, 0, 0, 0, 0, 0, 0, 0, 0, 0]"
  "map (\<lambda>i. letter_count i (fullText long_chunk)) [0 ..< 26]
   = [3, 4, 0, 0, 0, 0, 0, 0, 0, 0, 0, 0, 0, 0, 0, 0, 0, 0, 0, 0, 0, 0, 0, 0, 0, 0]"
  by code_simp+

lemma rnd_sevenths:
  "rnd (3 / 7) = 7720456504063707 / 18014398509481984"
  "rnd (4 / 7) = 2573485501354569 / 4503599627370496"
  by (simp_all add: rnd_eval)

lemma embedding_short:
  "createSimpleEmbedding (fullText short_chunk) = [1, 0, 0, 0, 0, 0, 0, 0, 0, 0, 0, 0, 0, 0, 0, 0, 0, 0, 0, 0, 0, 0, 0, 0, 0, 0]"
  by (simp add: createSimpleEmbedding_counts [OF counts_short_long(1) _ counts_short_long(3)])
    (simp add: rnd_eval)

lemma embedding_long:
  "createSimpleEmbedding (fullText long_chunk) =
     [7720456504063707 / 18014398509481984, 2573485501354569 / 4503599627370496, 0, 0, 0, 0, 0, 0, 0, 0, 0, 0, 0, 0, 0, 0, 0, 0, 0, 0, 0, 0, 0, 0, 0, 0]"
  by (simp add: createSimpleEmbedding_counts [OF counts_short_long(2) _ counts_short_long(4)]
      rnd_sevenths)

lemma loops_short_long:
  "norm_loop (createSimpleEmbedding (fullText short_chunk)) = 1"
  "norm_loop (createSimpleEmbedding (fullText long_chunk)) = 1148877455961861 / 2251799813685248"
  "dot_loop (createSimpleEmbedding (fullText short_chunk)) (createSimpleEmbedding (fullText long_chunk))
   = 7720456504063707 / 18014398509481984"
  "dot_loop (createSimpleEmbedding (fullText long_chunk)) (createSimpleEmbedding (fullText short_chunk))
   = 7720456504063707 / 18014398509481984"
  by (simp_all add: embedding_short embedding_long norm_loop_def dot_loop_def fadd_def fmul_def
      rnd_eval)

lemma fsqrt_long:
  "fsqrt (1148877455961861 / 2251799813685248) = 3216856876693211 / 4503599627370496"
proof -
  have "fsqrt (1148877455961861 / 2251799813685248) = of_int 6433713753386422 * 2 powi (- 53)"
    by (rule fsqrt_eqI) (simp_all add: power2_eq_square)
  then show ?thesis by simp
qed

lemma fsqrt_1: "fsqrt 1 = 1"
  by (simp add: fsqrt_def rnd_eval)

lemma cosines_short_long:
  "cosine_value (createSimpleEmbedding (fullText short_chunk))
     (createSimpleEmbedding (fullText long_chunk)) = Num (1351079888211149 / 2251799813685248)"
  "cosine_value (createSimpleEmbedding (fullText long_chunk))
     (createSimpleEmbedding (fullText short_chunk)) = Num (1351079888211149 / 2251799813685248)"
  by (simp_all add: cosine_value_def cosine_loop_lists loops_short_long fsqrt_long fsqrt_1
      js_div_def fmul_def fdiv_def)
    (simp_all add: rnd_eval)

lemma rnd_threshold:
  "rnd 0.6 = 5404319552844595 / 9007199254740992"
  "rnd (3 / 5) = 5404319552844595 / 9007199254740992"
  by (simp_all add: rnd_eval)

lemma chunks_short_long:
  "chunks (ready [short_chunk, long_chunk] p) =
      [(enhance short_chunk)\<lparr>relatedChunks := Some [''q'']\<rparr>,
       (enhance long_chunk)\<lparr>relatedChunks := Some [''p'']\<rparr>]"
  by (simp add: ready_def chunks_initialize_new resolve_def needs_inference_def related_to_def
      keywordOverlap_def fields_short_long cosines_short_long rnd_threshold)

theorem inferred_relations_witness:
  "map relatedChunks (chunks (ready [billing_chunk, faq_chunk] ''prompt'')) = [Some [''faq''], Some []]
   \<and> map relatedChunks (chunks (ready [short_chunk, long_chunk] ''prompt'')) = [Some [''q''], Some [''p'']]"
proof -
  have "chunks (ready [billing_chunk, faq_chunk] ''prompt'') =
     map (\<lambda>chunk.
            if relatedChunks chunk = None \<or> relatedChunks chunk = Some []
            then chunk\<lparr>relatedChunks :=
                   Some (map id'
                     (filter (\<lambda>otherChunk.
                                id' otherChunk \<noteq> id' chunk
                                \<and> (2 \<le> length (filter (\<lambda>keyword. keyword \<in> set (keywords' otherChunk)
                                                                     \<union> set (autoKeywords otherChunk))
                                                   (keywords' chunk @ autoKeywords chunk))
                                   \<or> js_gt (cosine_value (embedding chunk) (embedding otherChunk)) (rnd 0.6)))
                        (map enhance [billing_chunk, faq_chunk])))\<rparr>
            else chunk)
       (map enhance [billing_chunk, faq_chunk])"
    by (rule inferred_relations)
  then have "map relatedChunks (chunks (ready [billing_chunk, faq_chunk] ''prompt''))
             = [Some [''faq''], Some []]"
    by (simp add: fields_billing_faq cosines_billing_faq)
  moreover have "chunks (ready [short_chunk, long_chunk] ''prompt'') =
     map (\<lambda>chunk.
            if relatedChunks chunk = None \<or> relatedChunks chunk = Some []
            then chunk\<lparr>relatedChunks :=
                   Some (map id'
                     (filter (\<lambda>otherChunk.
                                id' otherChunk \<noteq> id' chunk
                                \<and> (2 \<le> length (filter (\<lambda>keyword. keyword \<in> set (keywords' otherChunk)
                                                                     \<union> set (autoKeywords otherChunk))
                                                   (keywords' chunk @ autoKeywords chunk))
                                   \<or> js_gt (cosine_value (embedding chunk) (embedding otherChunk)) (rnd 0.6)))
                        (map enhance [short_chunk, long_chunk])))\<rparr>
            else chunk)
       (map enhance [short_chunk, long_chunk])"
    by (rule inferred_relations)
  then have "map relatedChunks (chunks (ready [short_chunk, long_chunk] ''prompt''))
             = [Some [''q''], Some [''p'']]"
    by (simp add: fields_short_long cosines_short_long rnd_threshold)
  ultimately show ?thesis by simp
qed

section \<open>The ranked context when every candidate has a score\<close>

lemma insort_cmp_key_on:
  fixes key :: "'a \<Rightarrow> 'k::linorder"
  assumes "\<forall>y\<in>set ys. js_positive (cmp x y) \<longleftrightarrow> key y < key x"
  shows "insort_cmp cmp x ys = insort_key key x ys"
  using assms by (induction ys) auto

lemma js_sort_key_on:
  fixes key :: "'a \<Rightarrow> 'k::linorder"
  assumes "\<forall>x\<in>set xs. \<forall>y\<in>set xs. js_positive (cmp x y) \<longleftrightarrow> key y < key x"
  shows "js_sort cmp xs = sort_key key xs"
  using assms
proof (induction xs)
  case Nil
  then show ?case by (simp add: js_sort_def)
next
  case (Cons x xs)
  then have ih: "js_sort cmp xs = sort_key key xs" by simp
  have "insort_cmp cmp x (sort_key key xs) = insort_key key x (sort_key key xs)"
    using Cons.prems by (intro insort_cmp_key_on) simp
  with ih show ?case by (simp add: js_sort_def)
qed

lemma insort_key_map:
  "insort_key f (g x) (map g ys) = map g (insort_key (\<lambda>y. f (g y)) x ys)"
  by (induction ys) simp_all

lemma sort_key_map:
  "sort_key f (map g xs) = map g (sort_key (\<lambda>y. f (g y)) xs)"
  by (induction xs) (simp_all add: insort_key_map)

lemma foldl_set_add: "foldl set_add (firsts ys) xs = firsts (ys @ xs)"
proof (induction xs rule: rev_induct)
  case Nil
  then show ?case by simp
next
  case (snoc x xs)
  have "firsts (ys @ xs @ [x]) = firsts ((ys @ xs) @ [x])" by simp
  then show ?case
    using snoc by (simp only: foldl_append foldl.simps firsts_snoc set_add_def set_firsts)
qed

lemma foldl_related_inner:
  "foldl (\<lambda>ids relatedId. if relatedId \<notin> set topIds then set_add ids relatedId else ids) (firsts ys) rs
   = firsts (ys @ filter (\<lambda>relatedId. relatedId \<notin> set topIds) rs)"
proof (induction rs arbitrary: ys)
  case Nil
  then show ?case by simp
next
  case (Cons r rs)
  show ?case
  proof (cases "r \<in> set topIds")
    case True
    then show ?thesis using Cons [of ys] by simp
  next
    case False
    have "set_add (firsts ys) r = firsts (ys @ [r])"
      by (simp add: set_add_def firsts_snoc)
    then show ?thesis using False Cons [of "ys @ [r]"] by simp
  qed
qed

lemma relatedChunkIds_eq:
  "relatedChunkIds topIds cs
   = firsts (filter (\<lambda>relatedId. relatedId \<notin> set topIds) (concat (map related_ids_of cs)))"
proof -
  have "foldl (\<lambda>ids chunk.
              (case relatedChunks chunk of
                 None \<Rightarrow> ids
               | Some rs \<Rightarrow>
                   foldl (\<lambda>ids relatedId.
                            if relatedId \<notin> set topIds then set_add ids relatedId else ids)
                     ids rs)) (firsts ys) cs
        = firsts (ys @ filter (\<lambda>relatedId. relatedId \<notin> set topIds) (concat (map related_ids_of cs)))"
    for ys
  proof (induction cs arbitrary: ys)
    case Nil
    then show ?case by simp
  next
    case (Cons c cs)
    show ?case
    proof (cases "relatedChunks c")
      case None
      then show ?thesis using Cons [of ys] by (simp add: related_ids_of_def)
    next
      case (Some rs)
      then show ?thesis
        using Cons [of "ys @ filter (\<lambda>relatedId. relatedId \<notin> set topIds) rs"]
        by (simp add: related_ids_of_def foldl_related_inner)
    qed
  qed
  from this [of "[]"] show ?thesis
    by (simp add: relatedChunkIds_def firsts_def)
qed

lemma set_chunks_keys:
  assumes "\<And>k c. m k = Some c \<Longrightarrow> id' c = k"
  shows "set_chunks m cs k = Some c \<Longrightarrow> id' c = k"
  using assms unfolding set_chunks_def
proof (induction cs arbitrary: m)
  case Nil
  then show ?case by simp
next
  case (Cons x xs)
  show ?case
  proof (rule Cons.IH [of "m(id' x \<mapsto> x)"])
    show "foldl (\<lambda>m chunk. m(id' chunk \<mapsto> chunk)) (m(id' x \<mapsto> x)) xs k = Some c"
      using Cons.prems(1) by (simp only: foldl_Cons)
    show "\<And>k c. (m(id' x \<mapsto> x)) k = Some c \<Longrightarrow> id' c = k"
      using Cons.prems(2) by (auto split: if_splits)
  qed
qed

lemma chunkMap_ready: "chunkMap (ready kcs p) k = Some c \<Longrightarrow> id' c = k"
  unfolding ready_def initialize_new by (rule set_chunks_keys [of Map.empty]) simp_all

lemma format_primary: "id' chunk \<in> set topIds \<Longrightarrow> format_chunk topIds chunk = primary_section chunk"
  by (simp add: format_chunk_def primary_section_def)

lemma format_related: "id' chunk \<notin> set topIds \<Longrightarrow> format_chunk topIds chunk = related_section chunk"
  by (simp add: format_chunk_def related_section_def)

lemma map_filter_keys:
  assumes "\<And>k c. m k = Some c \<Longrightarrow> id' c = k"
  shows "id' ` set (List.map_filter m ks) \<subseteq> set ks"
  using assms by (auto simp: List.map_filter_def)

lemma build_context_ready:
  "build_context (ready kcs p) topChunks =
     join separator (map primary_section topChunks
                     @ map related_section (secondary_results (ready kcs p) topChunks))"
proof -
  let ?ids = "map id' topChunks"
  let ?rel = "List.map_filter (chunkMap (ready kcs p)) (relatedChunkIds ?ids topChunks)"
  have "id' c \<notin> set ?ids" if "c \<in> set (take 2 ?rel)" for c
  proof -
    from that have "c \<in> set ?rel" by (rule in_set_takeD)
    then have "id' c \<in> set (relatedChunkIds ?ids topChunks)"
      using map_filter_keys [of "chunkMap (ready kcs p)" "relatedChunkIds ?ids topChunks"]
        chunkMap_ready by blast
    then show ?thesis by (simp add: relatedChunkIds_eq)
  qed
  then have sec: "map (format_chunk ?ids) (take 2 ?rel) = map related_section (take 2 ?rel)"
    by (intro map_cong) (simp_all add: format_related)
  have prim: "map (format_chunk ?ids) topChunks = map primary_section topChunks"
    by (intro map_cong) (simp_all add: format_primary)
  have take2: "take (min (length ?rel) 2) ?rel = take 2 ?rel" by (simp add: min_def)
  show ?thesis
    by (simp only: build_context_def Let_def map_append take2 prim sec)
      (simp only: secondary_results_def relatedChunkIds_eq)
qed

text \<open>A score is NaN exactly when the combined query or the chunk has no letter.\<close>

lemma boosted_score_signature:
  assumes "embedding chunk = createSimpleEmbedding t"
    and "total_letters combinedQuery \<noteq> 0" and "total_letters t \<noteq> 0"
  shows "\<exists>r. boosted_score combinedQuery chunk = Num r"
  using assms by (simp add: boosted_score_def cosine_value_signatures)

lemma boosted_score_NaN:
  assumes "embedding chunk = createSimpleEmbedding t"
    and "total_letters combinedQuery = 0 \<or> total_letters t = 0"
  shows "boosted_score combinedQuery chunk = NaN"
  using assms by (auto simp: boosted_score_def cosine_value_signatures)

lemma pool_ready:
  "take (min (length (chunks (ready kcs p))) 50) (chunks (ready kcs p))
   = map (\<lambda>k. resolve (map enhance kcs) (enhance k)) (take 50 kcs)"
  by (simp add: ready_def chunks_initialize_new take_map o_def min_def)

lemma topChunks_of_scored:
  assumes num: "\<forall>chunk\<in>set pool. \<exists>r. score chunk = Num r" and m: "0 \<le> maxChunks"
  shows "topChunks_of maxChunks (map (\<lambda>chunk. (chunk, score chunk)) pool)
         = take (nat maxChunks) (rank_by_score score pool)"
proof -
  let ?items = "map (\<lambda>chunk. (chunk, score chunk)) pool"
  have "\<forall>x\<in>set ?items. \<forall>y\<in>set ?items.
          js_positive (js_sub (snd y) (snd x)) \<longleftrightarrow> - num_value (snd y) < - num_value (snd x)"
  proof (intro ballI)
    fix x y assume "x \<in> set ?items" "y \<in> set ?items"
    then obtain rx ry where "snd x = Num rx" "snd y = Num ry"
      using num by fastforce
    then show "js_positive (js_sub (snd y) (snd x)) \<longleftrightarrow> - num_value (snd y) < - num_value (snd x)"
      by (simp add: num_value_def)
  qed
  then have "js_sort (\<lambda>a b. js_sub (snd b) (snd a)) ?items
             = sort_key (\<lambda>a. - num_value (snd a)) ?items"
    by (rule js_sort_key_on)
  also have "\<dots> = map (\<lambda>chunk. (chunk, score chunk)) (rank_by_score score pool)"
    by (simp add: sort_key_map rank_by_score_def)
  finally show ?thesis
    using m by (simp add: topChunks_of_def js_slice0_nonneg take_map o_def)
qed

text \<open>
  When the combined query and each of the first 50 input chunks have a letter, every
  candidate's score is a number, and the result of \<^verbatim>\<open>getRelevantContext\<close> is the
  sections of the primary results, the first \<open>maxChunks\<close> candidates in the stable
  order by descending score, followed by the annotated sections of the secondary results,
  joined by the separator.
\<close>

lemma ranked_context:
  assumes q: "total_letters (query @ '' '' @ conversationHistory) \<noteq> 0"
    and c: "\<forall>k\<in>set (take 50 kcs). total_letters (fullText k) \<noteq> 0"
    and m: "0 \<le> maxChunks"
  shows "fst (getRelevantContext (ready kcs p) query conversationHistory maxChunks) =
     Inr (let primaries =
                take (nat maxChunks)
                  (rank_by_score (boosted_score (query @ '' '' @ conversationHistory))
                     (take 50 (chunks (ready kcs p))))
          in join separator
               (map primary_section primaries
                @ map related_section (secondary_results (ready kcs p) primaries)))"
proof -
  let ?cq = "query @ '' '' @ conversationHistory"
  let ?pool = "take (min (length (chunks (ready kcs p))) 50) (chunks (ready kcs p))"
  have pool: "?pool = take 50 (chunks (ready kcs p))" by (simp add: min_def)
  have "\<exists>r. boosted_score ?cq chunk = Num r" if "chunk \<in> set ?pool" for chunk
  proof -
    from that obtain k where k: "k \<in> set (take 50 kcs)"
      and chunk: "chunk = resolve (map enhance kcs) (enhance k)"
      by (auto simp: pool_ready)
    have "embedding chunk = createSimpleEmbedding (fullText k)"
      by (simp add: chunk enhance_def)
    then show ?thesis
      using q c k by (intro boosted_score_signature [where t = "fullText k"]) auto
  qed
  then have "topChunks_of maxChunks (map (\<lambda>chunk. (chunk, boosted_score ?cq chunk)) ?pool)
             = take (nat maxChunks) (rank_by_score (boosted_score ?cq) ?pool)"
    using m by (intro topChunks_of_scored) auto
  then show ?thesis
    by (simp only: getRelevantContext_def ready_initialized similarities_ready Let_def
        build_context_ready pool) simp
qed

lemma rank_by_score_sorted:
  "sorted_wrt (\<lambda>a b. num_value (score b) \<le> num_value (score a)) (rank_by_score score xs)"
proof -
  have "sorted (map (\<lambda>x. - num_value (score x)) (rank_by_score score xs))"
    by (simp add: rank_by_score_def)
  then show ?thesis by (simp add: sorted_map)
qed

lemma rank_by_score_stable:
  "filter (\<lambda>x. num_value (score x) = v) (rank_by_score score xs)
   = filter (\<lambda>x. num_value (score x) = v) xs"
  using sort_key_stable [of "\<lambda>x. - num_value (score x)" "- v" xs]
  by (simp add: rank_by_score_def)

lemma rank_by_score_elements:
  "set (rank_by_score score xs) = set xs" "length (rank_by_score score xs) = length xs"
  "distinct (rank_by_score score xs) = distinct xs"
  by (simp_all add: rank_by_score_def)

section \<open>Ranking in the presence of a NaN score\<close>

lemma keywords_corpus:
  "extractKeywords (fullText maps_chunk) = [''maps'']"
  "extractKeywords (fullText year_chunk) = [''2024'']"
  "extractKeywords (fullText refund_chunk) = [''refund'']"
  "extractKeywords ''refund '' = [''refund'']"
  by code_simp+

lemma fields_example:
  "id' (enhance maps_chunk) = ''maps''" "id' (enhance year_chunk) = ''year''"
  "id' (enhance refund_chunk) = ''refund''"
  "relatedChunks (enhance maps_chunk) = None" "relatedChunks (enhance year_chunk) = None"
  "relatedChunks (enhance refund_chunk) = None"
  "title (enhance maps_chunk) = ''Maps''" "content (enhance maps_chunk) = []"
  "title (enhance year_chunk) = ''2024''" "content (enhance year_chunk) = []"
  "title (enhance refund_chunk) = ''Refund''" "content (enhance refund_chunk) = []"
  "keywords' (enhance maps_chunk) = []" "keywords' (enhance year_chunk) = []"
  "keywords' (enhance refund_chunk) = []"
  "autoKeywords (enhance maps_chunk) = [''maps'']" "autoKeywords (enhance year_chunk) = [''2024'']"
  "autoKeywords (enhance refund_chunk) = [''refund'']"
  "embedding (enhance maps_chunk) = createSimpleEmbedding (fullText maps_chunk)"
  "embedding (enhance year_chunk) = createSimpleEmbedding (fullText year_chunk)"
  "embedding (enhance refund_chunk) = createSimpleEmbedding (fullText refund_chunk)"
  by (simp_all add: enhance_def keywords_corpus)
    (simp_all add: maps_chunk_def year_chunk_def refund_chunk_def)

lemma letters_maps_refund:
  "total_letters (fullText maps_chunk) = 4" "total_letters (fullText year_chunk) = 0"
  "total_letters (fullText refund_chunk) = 6" "total_letters ''refund '' = 6"
  "list_all (\<lambda>i. letter_count i (fullText maps_chunk) = 0 \<or> letter_count i (fullText refund_chunk) = 0)
     [0 ..< 26]"
  "list_all (\<lambda>i. letter_count i (fullText refund_chunk) = 0 \<or> letter_count i (fullText maps_chunk) = 0)
     [0 ..< 26]"
  "list_all (\<lambda>i. letter_count i ''refund '' = 0 \<or> letter_count i (fullText maps_chunk) = 0)
     [0 ..< 26]"
  by code_simp+

lemma counts_refund:
  "map (\<lambda>i. letter_count i (fullText refund_chunk)) [0 ..< 26]
   = [0, 0, 0, 1, 1, 1, 0, 0, 0, 0, 0, 0, 0, 1, 0, 0, 0, 1, 0, 0, 1, 0, 0, 0, 0, 0]"
  "map (\<lambda>i. letter_count i ''refund '') [0 ..< 26]
   = [0, 0, 0, 1, 1, 1, 0, 0, 0, 0, 0, 0, 0, 1, 0, 0, 0, 1, 0, 0, 1, 0, 0, 0, 0, 0]"
  by code_simp+

lemma rnd_sixth: "rnd (1 / 6) = 6004799503160661 / 36028797018963968"
  by (simp add: rnd_eval)

lemma embedding_refund:
  "createSimpleEmbedding (fullText refund_chunk) =
     [0, 0, 0, 6004799503160661 / 36028797018963968, 6004799503160661 / 36028797018963968, 6004799503160661 / 36028797018963968, 0, 0, 0, 0, 0, 0, 0, 6004799503160661 / 36028797018963968, 0, 0, 0, 6004799503160661 / 36028797018963968, 0, 0, 6004799503160661 / 36028797018963968, 0, 0, 0, 0, 0]"
  "createSimpleEmbedding ''refund '' =
     [0, 0, 0, 6004799503160661 / 36028797018963968, 6004799503160661 / 36028797018963968, 6004799503160661 / 36028797018963968, 0, 0, 0, 0, 0, 0, 0, 6004799503160661 / 36028797018963968, 0, 0, 0, 6004799503160661 / 36028797018963968, 0, 0, 6004799503160661 / 36028797018963968, 0, 0, 0, 0, 0]"
  by (simp_all add: createSimpleEmbedding_counts [OF letters_maps_refund(3) _ counts_refund(1)]
      createSimpleEmbedding_counts [OF letters_maps_refund(4) _ counts_refund(2)] rnd_sixth)

lemma norm_refund:
  "norm_loop [0, 0, 0, 6004799503160661 / 36028797018963968, 6004799503160661 / 36028797018963968, 6004799503160661 / 36028797018963968, 0, 0, 0, 0, 0, 0, 0, 6004799503160661 / 36028797018963968, 0, 0, 0, 6004799503160661 / 36028797018963968, 0, 0, 6004799503160661 / 36028797018963968, 0, 0, 0, 0, 0]
   = 3002399751580331 / 18014398509481984"
  by (simp add: norm_loop_def fadd_def fmul_def rnd_eval)

lemma fsqrt_refund:
  "fsqrt (3002399751580331 / 18014398509481984) = 3677173697615391 / 9007199254740992"
proof -
  have "fsqrt (3002399751580331 / 18014398509481984) = of_int 7354347395230782 * 2 powi (- 54)"
    by (rule fsqrt_eqI) (simp_all add: power2_eq_square)
  then show ?thesis by simp
qed

text \<open>The similarity of a signature with itself need not be 1: here it is
  \<open>1 + 2 ^ - 52\<close>.\<close>

lemma cosine_refund:
  "cosine_value (createSimpleEmbedding ''refund '') (createSimpleEmbedding (fullText refund_chunk))
   = Num (4503599627370497 / 4503599627370496)"
  by (simp add: cosine_value_def cosine_loop_lists embedding_refund dot_loop_self norm_refund
      fsqrt_refund js_div_def fmul_def fdiv_def)
    (simp add: rnd_eval)

lemma cosines_example:
  "cosine_value (createSimpleEmbedding (fullText refund_chunk)) (createSimpleEmbedding (fullText maps_chunk)) = Num 0"
  "cosine_value (createSimpleEmbedding (fullText refund_chunk)) (createSimpleEmbedding (fullText year_chunk)) = NaN"
  "cosine_value (createSimpleEmbedding (fullText maps_chunk)) (createSimpleEmbedding (fullText year_chunk)) = NaN"
  "cosine_value (createSimpleEmbedding (fullText maps_chunk)) (createSimpleEmbedding (fullText refund_chunk)) = Num 0"
  "cosine_value (createSimpleEmbedding (fullText year_chunk)) (createSimpleEmbedding (fullText maps_chunk)) = NaN"
  "cosine_value (createSimpleEmbedding (fullText year_chunk)) (createSimpleEmbedding (fullText refund_chunk)) = NaN"
  "cosine_value (createSimpleEmbedding ''refund '') (createSimpleEmbedding (fullText maps_chunk)) = Num 0"
  "cosine_value (createSimpleEmbedding ''refund '') (createSimpleEmbedding (fullText year_chunk)) = NaN"
  by (simp_all add: cosine_signatures_orthogonal letters_maps_refund)
    (simp_all add: cosine_value_signatures letters_maps_refund)

lemma overlaps_example:
  "keywordOverlap (enhance maps_chunk) (enhance year_chunk) = 0"
  "keywordOverlap (enhance maps_chunk) (enhance refund_chunk) = 0"
  "keywordOverlap (enhance year_chunk) (enhance maps_chunk) = 0"
  "keywordOverlap (enhance year_chunk) (enhance refund_chunk) = 0"
  "keywordOverlap (enhance refund_chunk) (enhance maps_chunk) = 0"
  "keywordOverlap (enhance refund_chunk) (enhance year_chunk) = 0"
  by (simp_all add: keywordOverlap_def fields_example)

lemma chunks_example:
  "chunks (ready example_corpus p) =
     [(enhance maps_chunk)\<lparr>relatedChunks := Some []\<rparr>,
      (enhance year_chunk)\<lparr>relatedChunks := Some []\<rparr>,
      (enhance refund_chunk)\<lparr>relatedChunks := Some []\<rparr>]"
  by (simp add: ready_def chunks_initialize_new example_corpus_def resolve_def needs_inference_def
      related_to_def fields_example overlaps_example cosines_example)

lemma chunks_letterless:
  "chunks (ready letterless_corpus p) =
     [(enhance year_chunk)\<lparr>relatedChunks := Some []\<rparr>,
      (enhance refund_chunk)\<lparr>relatedChunks := Some []\<rparr>]"
  by (simp add: ready_def chunks_initialize_new letterless_corpus_def resolve_def
      needs_inference_def related_to_def fields_example overlaps_example cosines_example)

lemma scores_example:
  "map (boosted_score ''refund '') (chunks (ready example_corpus p))
   = [Num 0, NaN, Num (2364389804369511 / 2251799813685248)]"
  by (simp add: chunks_example boosted_score_def keywords_corpus fields_example cosines_example
      cosine_refund)
    (simp add: fadd_def fmul_def rnd_eval)

lemma scores_letterless:
  "map (boosted_score ''refund '') (chunks (ready letterless_corpus p))
   = [NaN, Num (2364389804369511 / 2251799813685248)]"
  by (simp add: chunks_letterless boosted_score_def keywords_corpus fields_example cosines_example
      cosine_refund)
    (simp add: fadd_def fmul_def rnd_eval)

lemma context_example:
  "fst (getRelevantContext (ready example_corpus p) ''refund'' [] 1)
     = Inr (''## Maps'' @ [CHR 0x0A, CHR 0x0A])"
proof -
  let ?m = "(enhance maps_chunk)\<lparr>relatedChunks := Some []\<rparr>"
  let ?y = "(enhance year_chunk)\<lparr>relatedChunks := Some []\<rparr>"
  let ?r = "(enhance refund_chunk)\<lparr>relatedChunks := Some []\<rparr>"
  have sims: "similarities (ready example_corpus p) ''refund '' =
                Inr [(?m, Num 0), (?y, NaN), (?r, Num (2364389804369511 / 2251799813685248))]"
    using scores_example [of p] by (simp add: similarities_ready chunks_example)
  have top: "topChunks_of 1 [(?m, Num 0), (?y, NaN), (?r, Num (2364389804369511 / 2251799813685248))] = [?m]"
    by (simp add: topChunks_of_def js_sort_def js_slice0_def)
  have ctx: "build_context (ready example_corpus p) [?m] = ''## Maps'' @ [CHR 0x0A, CHR 0x0A]"
    by (simp add: build_context_def relatedChunkIds_def format_chunk_def fields_example)
  show ?thesis
    by (simp add: getRelevantContext_def ready_initialized sims top ctx)
qed

lemma context_letterless:
  "fst (getRelevantContext (ready letterless_corpus p) ''refund'' [] 1)
     = Inr (''## 2024'' @ [CHR 0x0A, CHR 0x0A])"
proof -
  let ?y = "(enhance year_chunk)\<lparr>relatedChunks := Some []\<rparr>"
  let ?r = "(enhance refund_chunk)\<lparr>relatedChunks := Some []\<rparr>"
  have sims: "similarities (ready letterless_corpus p) ''refund '' =
                Inr [(?y, NaN), (?r, Num (2364389804369511 / 2251799813685248))]"
    using scores_letterless [of p] by (simp add: similarities_ready chunks_letterless)
  have top: "topChunks_of 1 [(?y, NaN), (?r, Num (2364389804369511 / 2251799813685248))] = [?y]"
    by (simp add: topChunks_of_def js_sort_def js_slice0_def)
  have ctx: "build_context (ready letterless_corpus p) [?y] = ''## 2024'' @ [CHR 0x0A, CHR 0x0A]"
    by (simp add: build_context_def relatedChunkIds_def format_chunk_def fields_example)
  show ?thesis
    by (simp add: getRelevantContext_def ready_initialized sims top ctx)
qed

text \<open>
  Claim C1 has the primary results ranked by descending score. The scorer gives NaN for
  a chunk whose title and content have no letter, and the comparator
  \<^verbatim>\<open>b.score - a.score\<close> is then NaN, which the sort takes for \<open>+0\<close>, for every pair
  with that chunk. On \<open>letterless_corpus\<close> the query \<^verbatim>\<open>refund\<close> scores the chunks NaN
  and 1.0500000000000003, the one comparison finds them equal, and with
  \<open>maxChunks = 1\<close> the result is the section of the letterless chunk. On
  \<open>example_corpus\<close> the scores are 0, NaN and 1.0500000000000003, the array stays as
  it is, and the result is the section of the chunk with score 0; the chunk with the
  highest score is in neither result.
\<close>

theorem letterless_chunk_breaks_ranking:
  "map title (chunks (ready letterless_corpus ''prompt'')) = [''2024'', ''Refund'']
   \<and> similarities (ready letterless_corpus ''prompt'') (''refund'' @ '' '' @ [])
     = Inr (zip (chunks (ready letterless_corpus ''prompt''))
              [NaN, Num (2364389804369511 / 2251799813685248)])
   \<and> fst (getRelevantContext (ready letterless_corpus ''prompt'') ''refund'' [] 1)
     = Inr (''## 2024'' @ [CHR 0x0A, CHR 0x0A])
   \<and> map title (chunks (ready example_corpus ''prompt'')) = [''Maps'', ''2024'', ''Refund'']
   \<and> similarities (ready example_corpus ''prompt'') (''refund'' @ '' '' @ [])
     = Inr (zip (chunks (ready example_corpus ''prompt''))
              [Num 0, NaN, Num (2364389804369511 / 2251799813685248)])
   \<and> fst (getRelevantContext (ready example_corpus ''prompt'') ''refund'' [] 1)
     = Inr (''## Maps'' @ [CHR 0x0A, CHR 0x0A])"
proof -
  have "similarities (ready letterless_corpus ''prompt'') ''refund ''
        = Inr (zip (chunks (ready letterless_corpus ''prompt''))
                 [NaN, Num (2364389804369511 / 2251799813685248)])"
    using scores_letterless [of "''prompt''"] by (simp add: similarities_ready chunks_letterless)
  moreover have "similarities (ready example_corpus ''prompt'') ''refund ''
        = Inr (zip (chunks (ready example_corpus ''prompt''))
                 [Num 0, NaN, Num (2364389804369511 / 2251799813685248)])"
    using scores_example [of "''prompt''"] by (simp add: similarities_ready chunks_example)
  moreover have "map title (chunks (ready letterless_corpus ''prompt'')) = [''2024'', ''Refund'']"
    "map title (chunks (ready example_corpus ''prompt'')) = [''Maps'', ''2024'', ''Refund'']"
    by (simp_all add: chunks_letterless chunks_example fields_example)
  ultimately show ?thesis
    using context_letterless [of "''prompt''"] context_example [of "''prompt''"] by simp
qed

section \<open>The score of a candidate without a letter\<close>

lemma keywords_dated:
  "extractKeywords (fullText dated_chunk) = [''2024'']"
  "extractKeywords ''12345 '' = [''12345'']"
  "total_letters (fullText dated_chunk) = 0" "total_letters ''12345 '' = 0"
  "toLowerCase ''refund '' = ''refund ''" "toLowerCase ''refund'' = ''refund''"
  "toLowerCase ''12345 '' = ''12345 ''" "toLowerCase ''billing'' = ''billing''"
  "includes_str ''refund '' ''refund''" "\<not> includes_str ''12345 '' ''billing''"
  by code_simp+

lemma fields_dated:
  "id' (enhance dated_chunk) = ''year''" "relatedChunks (enhance dated_chunk) = None"
  "keywords' (enhance dated_chunk) = [''refund'']" "autoKeywords (enhance dated_chunk) = [''2024'']"
  "embedding (enhance dated_chunk) = replicate 26 0"
  by (simp_all add: enhance_def keywords_dated createSimpleEmbedding_no_letters)
    (simp_all add: dated_chunk_def)

lemma chunks_dated:
  "chunks (ready [dated_chunk] p) = [(enhance dated_chunk)\<lparr>relatedChunks := Some []\<rparr>]"
  by (simp add: ready_def chunks_initialize_new resolve_def needs_inference_def related_to_def
      fields_dated)

lemma chunks_billing:
  "chunks (ready [billing_chunk] p) = [(enhance billing_chunk)\<lparr>relatedChunks := Some []\<rparr>]"
  by (simp add: ready_def chunks_initialize_new resolve_def needs_inference_def related_to_def
      fields_billing_faq)

lemma specified_similarity_zero:
  "specified_similarity (replicate 26 0) vecB = 0" "specified_similarity vecA (replicate 26 0) = 0"
  by (simp_all add: specified_similarity_def Let_def sum_list_replicate)

text \<open>
  Claim C2 has the score of every candidate equal to the similarity plus the two
  boosts, where the similarity of a vector of norm zero is 0 (claim C4). The candidates
  and the boosts are as the claim says (\<open>scored_candidates\<close>), but the scorer gives
  NaN when the chunk or the combined query has no letter, and NaN plus a boost is NaN.
  The chunk titled \<^verbatim>\<open>2024\<close> with the curated keyword \<^verbatim>\<open>refund\<close> matches the query
  \<^verbatim>\<open>refund\<close> by that keyword: its score in the words of the claim is 0.15, the code
  scores it NaN. The query \<^verbatim>\<open>12345\<close> scores every chunk NaN, here \<open>billing_chunk\<close>,
  whose score in the words of the claim is 0.
\<close>

theorem letterless_candidate_score:
  "map title (chunks (ready [dated_chunk] ''prompt'')) = [''2024'']
   \<and> map keywords' (chunks (ready [dated_chunk] ''prompt'')) = [[''refund'']]
   \<and> map embedding (chunks (ready [dated_chunk] ''prompt'')) = [replicate 26 0]
   \<and> similarities (ready [dated_chunk] ''prompt'') (''refund'' @ '' '' @ [])
     = Inr (zip (chunks (ready [dated_chunk] ''prompt'')) [NaN])
   \<and> map (specified_score (''refund'' @ '' '' @ [])) (chunks (ready [dated_chunk] ''prompt''))
     = [3 / 20]
   \<and> similarities (ready [billing_chunk] ''prompt'') (''12345'' @ '' '' @ [])
     = Inr (zip (chunks (ready [billing_chunk] ''prompt'')) [NaN])
   \<and> map (specified_score (''12345'' @ '' '' @ [])) (chunks (ready [billing_chunk] ''prompt''))
     = [0]"
proof -
  have "similarities (ready [dated_chunk] ''prompt'') ''refund ''
        = Inr (zip (chunks (ready [dated_chunk] ''prompt'')) [NaN])"
    by (simp add: similarities_ready chunks_dated boosted_score_def fields_dated
        cosine_value_zero_norm)
  moreover have "map (specified_score ''refund '') (chunks (ready [dated_chunk] ''prompt'')) = [3 / 20]"
    by (simp add: chunks_dated specified_score_def fields_dated specified_similarity_zero
        keywords_corpus keywords_dated includes_str_sublist [symmetric])
  moreover have "cosine_value (createSimpleEmbedding ''12345 '') (embedding (enhance billing_chunk)) = NaN"
    by (simp add: fields_billing_faq cosine_value_signatures keywords_dated)
  then have "similarities (ready [billing_chunk] ''prompt'') ''12345 ''
        = Inr (zip (chunks (ready [billing_chunk] ''prompt'')) [NaN])"
    by (simp add: similarities_ready chunks_billing boosted_score_def)
  moreover have "map (specified_score ''12345 '') (chunks (ready [billing_chunk] ''prompt'')) = [0]"
    by (simp add: chunks_billing specified_score_def fields_billing_faq keywords_dated
        createSimpleEmbedding_no_letters specified_similarity_zero includes_str_sublist [symmetric])
  moreover have "map title (chunks (ready [dated_chunk] ''prompt'')) = [''2024'']"
    "map keywords' (chunks (ready [dated_chunk] ''prompt'')) = [[''refund'']]"
    "map embedding (chunks (ready [dated_chunk] ''prompt'')) = [replicate 26 0]"
    by (simp_all add: chunks_dated fields_dated) (simp add: enhance_def dated_chunk_def)
  ultimately show ?thesis by simp
qed

end
